theory Spec2Isabelle
  imports Complex_Main "HOL-Library.Sublist" "HOL-Library.List_Lexorder" "HOL-Library.Char_ord"
begin

section \<open>JavaScript values used by the directory browser\<close>

subsection \<open>Numbers\<close>

text \<open>
  A JavaScript number is modelled as an exact rational or one of the three special values
  of IEEE arithmetic. Rounding of finite results is abstracted: the finite values the
  program computes here are small integers, quotients of two lengths, and sums of such
  quotients scaled by 0.3, 0.4 and 0.1. The one comparison with a constant, a similarity
  against 0.7, compares a quotient of two string lengths with 7/10, and rounding does not
  change its outcome for any string of fewer than \<open>10^14\<close> code units. What is kept
  exactly is the behaviour on a zero divisor, which does not raise in JavaScript:
  \<open>0 / 0\<close> is \<open>NaN\<close> and \<open>n / 0\<close> is an infinity for every other \<open>n\<close>. Division is
  needed on integers only.
\<close>

datatype jsnum = Num rat | PosInf | NegInf | NaN

definition js_div :: "int \<Rightarrow> int \<Rightarrow> jsnum" where
  "js_div n d =
     (if d = 0 then (if n = 0 then NaN else if 0 < n then PosInf else NegInf)
      else Num (of_int n / of_int d))"

fun js_add :: "jsnum \<Rightarrow> jsnum \<Rightarrow> jsnum" where
  "js_add (Num a) (Num b) = Num (a + b)"
| "js_add NaN _ = NaN"
| "js_add _ NaN = NaN"
| "js_add PosInf NegInf = NaN"
| "js_add NegInf PosInf = NaN"
| "js_add PosInf _ = PosInf"
| "js_add _ PosInf = PosInf"
| "js_add NegInf _ = NegInf"
| "js_add _ NegInf = NegInf"

fun js_neg :: "jsnum \<Rightarrow> jsnum" where
  "js_neg (Num a) = Num (- a)"
| "js_neg PosInf = NegInf"
| "js_neg NegInf = PosInf"
| "js_neg NaN = NaN"

definition js_sub :: "jsnum \<Rightarrow> jsnum \<Rightarrow> jsnum" where
  "js_sub a b = js_add a (js_neg b)"

text \<open>Multiplication by a finite constant \<open>c\<close>, as in \<open>ratio * 0.4\<close>.\<close>

fun js_scale :: "jsnum \<Rightarrow> rat \<Rightarrow> jsnum" where
  "js_scale (Num a) c = Num (a * c)"
| "js_scale NaN c = NaN"
| "js_scale PosInf c = (if c = 0 then NaN else if 0 < c then PosInf else NegInf)"
| "js_scale NegInf c = (if c = 0 then NaN else if 0 < c then NegInf else PosInf)"

text \<open>The comparisons \<open>>\<close> and \<open>>=\<close>: every comparison with \<open>NaN\<close> is false.\<close>

fun js_gt :: "jsnum \<Rightarrow> jsnum \<Rightarrow> bool" where
  "js_gt NaN _ = False"
| "js_gt _ NaN = False"
| "js_gt (Num a) (Num b) = (b < a)"
| "js_gt PosInf PosInf = False"
| "js_gt PosInf _ = True"
| "js_gt _ PosInf = False"
| "js_gt NegInf _ = False"
| "js_gt _ NegInf = True"

definition js_ge :: "jsnum \<Rightarrow> jsnum \<Rightarrow> bool" where
  "js_ge a b = (a \<noteq> NaN \<and> b \<noteq> NaN \<and> (a = b \<or> js_gt a b))"

definition is_finite :: "jsnum \<Rightarrow> bool" where
  "is_finite x = (case x of Num _ \<Rightarrow> True | _ \<Rightarrow> False)"

subsection \<open>Strings\<close>

text \<open>
  A string is a list of code units; the model covers the code units below 256 (Latin-1),
  where \<open>toLowerCase\<close> acts on each code unit by itself. The white space of
  \<open>String.prototype.trim\<close> and of the regular-expression class \<open>\s\<close> in that range is
  tab, line feed, vertical tab, form feed, carriage return, space and no-break space.
\<close>

definition is_space :: "char \<Rightarrow> bool" where
  "is_space c = (c \<in> set [CHR 0x09, CHR 0x0A, CHR 0x0B, CHR 0x0C, CHR 0x0D, CHR 0x20, CHR 0xA0])"

definition lower_char :: "char \<Rightarrow> char" where
  "lower_char c =
     (let n = (of_char c :: nat)
      in if (65 \<le> n \<and> n \<le> 90) \<or> (192 \<le> n \<and> n \<le> 222 \<and> n \<noteq> 215)
         then char_of (n + 32) else c)"

definition toLowerCase :: "string \<Rightarrow> string" where
  "toLowerCase s = map lower_char s"

definition trim :: "string \<Rightarrow> string" where
  "trim s = rev (dropWhile is_space (rev (dropWhile is_space s)))"

text \<open>\<open>s.includes(t)\<close>: \<open>t\<close> occurs in \<open>s\<close> as a contiguous substring.\<close>

fun js_includes :: "string \<Rightarrow> string \<Rightarrow> bool" where
  "js_includes [] t = (t = [])"
| "js_includes (x # xs) t = (prefix t (x # xs) \<or> js_includes xs t)"

text \<open>
  \<open>s.split(sep)\<close> for a separator of one code unit: the pieces between the occurrences of
  the separator, empty pieces included, so that the result is never empty.
\<close>

fun split_on :: "char \<Rightarrow> string \<Rightarrow> string list" where
  "split_on c [] = [[]]"
| "split_on c (x # xs) =
     (let r = split_on c xs in if x = c then [] # r else (x # hd r) # tl r)"

text \<open>\<open>parts.join(' ')\<close>.\<close>

fun join_space :: "string list \<Rightarrow> string" where
  "join_space [] = []"
| "join_space [s] = s"
| "join_space (s # t # ss) = s @ CHR '' '' # join_space (t # ss)"

text \<open>\<open>s.charAt(i)\<close>: the string of the one code unit at \<open>i\<close>, empty out of range.\<close>

definition charAt :: "string \<Rightarrow> nat \<Rightarrow> string" where
  "charAt s i = (if i < length s then [s ! i] else [])"

subsection \<open>Arrays\<close>

text \<open>
  An array is a list of slots; a slot is \<open>None\<close> when it is a hole or holds
  \<open>undefined\<close>. Reading past the end yields \<open>undefined\<close>; writing past the end extends
  the array, leaving holes in between.
\<close>

definition js_read :: "'a option list \<Rightarrow> nat \<Rightarrow> 'a option" where
  "js_read xs i = (if i < length xs then xs ! i else None)"

definition js_write :: "'a option list \<Rightarrow> nat \<Rightarrow> 'a option \<Rightarrow> 'a option list" where
  "js_write xs i v =
     (if i < length xs then xs[i := v] else xs @ replicate (i - length xs) None @ [v])"

text \<open>
  \<open>xs.sort(cmp)\<close> with a comparator: a stable sort driven by the sign of the comparator's
  result, where a \<open>NaN\<close> result counts as zero. For a consistent comparator every stable
  sort gives this list; the model inserts from the right, each element before the first
  one it does not have to follow.
\<close>

definition cmp_pos :: "jsnum \<Rightarrow> bool" where
  "cmp_pos r = js_gt r (Num 0)"

fun js_insort :: "('a \<Rightarrow> 'a \<Rightarrow> jsnum) \<Rightarrow> 'a \<Rightarrow> 'a list \<Rightarrow> 'a list" where
  "js_insort cmp x [] = [x]"
| "js_insort cmp x (y # ys) =
     (if cmp_pos (cmp x y) then y # js_insort cmp x ys else x # y # ys)"

definition js_sort :: "('a \<Rightarrow> 'a \<Rightarrow> jsnum) \<Rightarrow> 'a list \<Rightarrow> 'a list" where
  "js_sort cmp xs = foldr (js_insort cmp) xs []"

section \<open>The search engine: edit distance and similarity\<close>

text \<open>
  \<open>levenshteinDistance(a, b)\<close> fills a matrix with one row per prefix of \<open>b\<close> and one
  column per prefix of \<open>a\<close>. The matrix is an array of rows, a row is an array of
  numbers. A cell that is read before it is written is \<open>undefined\<close>, and arithmetic on it
  gives \<open>NaN\<close>; both are the slot value \<open>None\<close>, as is every cell of a row that does
  not exist. A write into a row that does not exist raises a \<open>TypeError\<close> in
  JavaScript; the model leaves the matrix as it is, and the cell read at the end is then
  \<open>None\<close>. The result \<open>None\<close> therefore stands for every outcome that is not a
  number.
\<close>

type_synonym matrix = "nat option list option list"

definition cell :: "matrix \<Rightarrow> nat \<Rightarrow> nat \<Rightarrow> nat option" where
  "cell m i j = (case js_read m i of None \<Rightarrow> None | Some row \<Rightarrow> js_read row j)"

definition set_cell :: "matrix \<Rightarrow> nat \<Rightarrow> nat \<Rightarrow> nat option \<Rightarrow> matrix" where
  "set_cell m i j v =
     (case js_read m i of None \<Rightarrow> m | Some row \<Rightarrow> js_write m i (Some (js_write row j v)))"

text \<open>\<open>x + 1\<close> and \<open>Math.min(x, y, z)\<close> on cells.\<close>

definition cell_succ :: "nat option \<Rightarrow> nat option" where
  "cell_succ x = map_option Suc x"

definition cell_min3 :: "nat option \<Rightarrow> nat option \<Rightarrow> nat option \<Rightarrow> nat option" where
  "cell_min3 x y z =
     (case (x, y, z) of (Some p, Some q, Some r) \<Rightarrow> Some (min p (min q r)) | _ \<Rightarrow> None)"

definition lev_init_rows :: "nat \<Rightarrow> matrix" where
  "lev_init_rows blen = fold (\<lambda>i m. js_write m i (Some [Some i])) [0..<Suc blen] []"

definition lev_init_cols :: "nat \<Rightarrow> matrix \<Rightarrow> matrix" where
  "lev_init_cols alen m0 = fold (\<lambda>j m. set_cell m 0 j (Some j)) [0..<Suc alen] m0"

definition lev_step :: "string \<Rightarrow> string \<Rightarrow> nat \<Rightarrow> nat \<Rightarrow> matrix \<Rightarrow> matrix" where
  "lev_step a b i j m =
     (if charAt b (i - 1) = charAt a (j - 1)
      then set_cell m i j (cell m (i - 1) (j - 1))
      else set_cell m i j
             (cell_min3 (cell_succ (cell m (i - 1) (j - 1)))
                        (cell_succ (cell m i (j - 1)))
                        (cell_succ (cell m (i - 1) j))))"

definition lev_fill :: "string \<Rightarrow> string \<Rightarrow> matrix \<Rightarrow> matrix" where
  "lev_fill a b m0 =
     fold (\<lambda>i m. fold (\<lambda>j m'. lev_step a b i j m') [1..<Suc (length a)] m)
          [1..<Suc (length b)] m0"

definition levenshteinDistance :: "string \<Rightarrow> string \<Rightarrow> nat option" where
  "levenshteinDistance a b =
     cell (lev_fill a b (lev_init_cols (length a) (lev_init_rows (length b))))
          (length b) (length a)"

text \<open>
  \<open>stringSimilarity(a, b)\<close>. The third test of the source, \<open>longer.length === 0\<close>,
  cannot succeed after the second one and is kept as written.
\<close>

definition stringSimilarity :: "string \<Rightarrow> string \<Rightarrow> jsnum" where
  "stringSimilarity a b =
     (if a = b then Num 1
      else if length a = 0 \<or> length b = 0 then Num 0
      else let longer = (if length a > length b then a else b);
               shorter = (if length a > length b then b else a)
           in if length longer = 0 then Num 1
              else (case levenshteinDistance longer shorter of
                      None \<Rightarrow> NaN
                    | Some d \<Rightarrow> js_div (int (length longer) - int d) (int (length longer))))"

subsection \<open>The classic edit distance\<close>

text \<open>
  The edit distance as it is classically defined: a character of the first string is
  kept, substituted or deleted, or a character of the second string is inserted; keeping
  is free and the three edits cost 1 each.
\<close>

fun levenshtein_classic :: "'a list \<Rightarrow> 'a list \<Rightarrow> nat" where
  "levenshtein_classic [] ys = length ys"
| "levenshtein_classic (x # xs) [] = Suc (length xs)"
| "levenshtein_classic (x # xs) (y # ys) =
     min (levenshtein_classic xs ys + (if x = y then 0 else 1))
         (min (levenshtein_classic xs (y # ys) + 1) (levenshtein_classic (x # xs) ys + 1))"

text \<open>\<open>edits xs ys n\<close>: some sequence of edits of total cost \<open>n\<close> turns \<open>xs\<close> into \<open>ys\<close>.\<close>

inductive edits :: "'a list \<Rightarrow> 'a list \<Rightarrow> nat \<Rightarrow> bool" where
  e_nil: "edits [] [] 0"
| e_keep: "edits xs ys n \<Longrightarrow> edits (x # xs) (x # ys) n"
| e_subst: "edits xs ys n \<Longrightarrow> edits (x # xs) (y # ys) (Suc n)"
| e_delete: "edits xs ys n \<Longrightarrow> edits (x # xs) ys (Suc n)"
| e_insert: "edits xs ys n \<Longrightarrow> edits xs (y # ys) (Suc n)"

text \<open>
  The similarity formula of the specification, in JavaScript arithmetic, over the classic
  distance. On strings of equal length the second one counts as the longer, as in the code.
\<close>

definition similarity_formula :: "string \<Rightarrow> string \<Rightarrow> jsnum" where
  "similarity_formula a b =
     (let longer = (if length a > length b then a else b);
          shorter = (if length a > length b then b else a)
      in js_div (int (length longer) - int (levenshtein_classic longer shorter))
                (int (length longer)))"

text \<open>
  The value the matrix holds at row \<open>i\<close> and column \<open>j\<close> once it is filled, and the
  invariant of the two nested loops: the rows above \<open>i\<close> are complete, row \<open>i\<close> is
  \<open>r\<close>, the rows below are as the first loop left them.
\<close>

fun dp :: "string \<Rightarrow> string \<Rightarrow> nat \<Rightarrow> nat \<Rightarrow> nat" where
  "dp a b 0 j = j"
| "dp a b (Suc i) 0 = Suc i"
| "dp a b (Suc i) (Suc j) =
     (if b ! i = a ! j then dp a b i j
      else min (dp a b i j + 1) (min (dp a b (Suc i) j + 1) (dp a b i (Suc j) + 1)))"

definition row_part :: "string \<Rightarrow> string \<Rightarrow> nat \<Rightarrow> nat \<Rightarrow> nat option list" where
  "row_part a b i j = map (\<lambda>k. Some (dp a b i k)) [0..<j]"

definition mat_inv :: "string \<Rightarrow> string \<Rightarrow> matrix \<Rightarrow> nat \<Rightarrow> nat option list \<Rightarrow> bool" where
  "mat_inv a b m i r =
     (length m = Suc (length b) \<and> i \<le> length b \<and>
      (\<forall>k<i. m ! k = Some (row_part a b k (Suc (length a)))) \<and>
      m ! i = Some r \<and>
      (\<forall>k. i < k \<and> k \<le> length b \<longrightarrow> m ! k = Some [Some k]))"

section \<open>The data loader: normalizing raw records\<close>

subsection \<open>Records\<close>

text \<open>
  A raw member is one object of the downloaded JSON list. Every field but the username
  may be missing or \<open>null\<close>, which is \<open>None\<close>; the tests of the code on these fields
  are tests for truthiness, which a missing field, \<open>null\<close> and the empty string fail alike.
\<close>

record raw_member =
  raw_name :: "string option"
  raw_username :: string
  raw_location :: "string option"
  raw_professional_summary :: "string option"
  raw_personal_summary :: "string option"
  raw_philosophical_summary :: "string option"
  raw_tags :: "string list option"
  raw_x_url :: "string option"
  raw_linkedin_url :: "string option"
  raw_discord_handle :: "string option"
  raw_post_date :: "int option"
  raw_profile_image :: "string option"
  raw_original_text :: "string option"

definition truthy :: "string option \<Rightarrow> bool" where
  "truthy f = (case f of None \<Rightarrow> False | Some s \<Rightarrow> s \<noteq> [])"

text \<open>
  The value of \<open>location_normalized\<close>: \<open>null\<close>, a string, or, for the two lower-case
  names that every object inherits from \<open>Object.prototype\<close>, the inherited object that
  the lookup in the alias table finds.
\<close>

datatype locval = LNull | LStr string | LInherited string

record social =
  twitter :: "string option"
  linkedin :: "string option"
  discord :: "string option"

record profile =
  name :: string
  username :: string
  location :: string
  professional_summary :: string
  personal_summary :: string
  philosophical_summary :: string
  tags :: "string list"
  professional_keywords :: "string list"
  location_normalized :: locval
  has_location :: bool
  has_professional_summary :: bool
  has_personal_summary :: bool
  has_social_links :: bool
  searchable_text :: string
  social_links :: social
  x_url :: "string option"
  linkedin_url :: "string option"
  discord_handle :: "string option"
  post_date :: "int option"
  profile_image :: "string option"
  original_text :: "string option"

subsection \<open>Cleaning text\<close>

text \<open>
  \<open>s.replace(/xy/g, r)\<close> for a pattern of two literal code units, and
  \<open>s.replace(/\s+/g, ' ')\<close>, which turns every maximal run of white space into one space
  (the flag says whether the previous code unit was white space).
\<close>

fun replace_pair :: "char \<Rightarrow> char \<Rightarrow> string \<Rightarrow> string \<Rightarrow> string" where
  "replace_pair a b r (x # y # s) =
     (if x = a \<and> y = b then r @ replace_pair a b r s else x # replace_pair a b r (y # s))"
| "replace_pair a b r s = s"

fun collapse_spaces :: "bool \<Rightarrow> string \<Rightarrow> string" where
  "collapse_spaces in_run [] = []"
| "collapse_spaces in_run (c # s) =
     (if is_space c then (if in_run then collapse_spaces True s
                          else CHR '' '' # collapse_spaces True s)
      else c # collapse_spaces False s)"

definition unescape_slashes :: "string \<Rightarrow> string" where
  "unescape_slashes s = replace_pair (CHR 0x5C) (CHR ''/'') ''/'' s"

definition cleanText :: "string option \<Rightarrow> string" where
  "cleanText text =
     (if \<not> truthy text then []
      else trim (collapse_spaces False
                  (unescape_slashes (replace_pair (CHR 0x5C) (CHR ''n'') '' '' (the text)))))"

subsection \<open>Extracting keywords\<close>

text \<open>
  The three patterns have the shape \<open>/\b(alt1|alt2|...)\b/g\<close>. An alternative is a
  sequence of atoms: literal text, an optional code unit (\<open>s?\<close>) and a run of white
  space (\<open>\s+\<close>). \<open>match_atoms\<close> lists the lengths an alternative can consume at the
  start of a string, in the order in which a backtracking matcher tries them: the
  optional code unit is tried present first, a run of white space longest first.
\<close>

datatype atom = Lit string | OptChar char | Spaces

fun match_atoms :: "atom list \<Rightarrow> string \<Rightarrow> nat list" where
  "match_atoms [] s = [0]"
| "match_atoms (Lit w # as) s =
     (if prefix w s then map (\<lambda>n. length w + n) (match_atoms as (drop (length w) s)) else [])"
| "match_atoms (OptChar c # as) s =
     (if s \<noteq> [] \<and> hd s = c then map Suc (match_atoms as (tl s)) else []) @ match_atoms as s"
| "match_atoms (Spaces # as) s =
     concat (map (\<lambda>k. map (\<lambda>n. k + n) (match_atoms as (drop k s)))
                 (rev [1..<Suc (length (takeWhile is_space s))]))"

definition is_word_char :: "char \<Rightarrow> bool" where
  "is_word_char c =
     (let n = (of_char c :: nat)
      in (48 \<le> n \<and> n \<le> 57) \<or> (65 \<le> n \<and> n \<le> 90) \<or> n = 95 \<or> (97 \<le> n \<and> n \<le> 122))"

text \<open>
  \<open>\b\<close> between a code unit and the next one; \<open>None\<close> is the start or the end of
  the text.
\<close>

definition word_boundary :: "char option \<Rightarrow> char option \<Rightarrow> bool" where
  "word_boundary l r =
     ((case l of None \<Rightarrow> False | Some c \<Rightarrow> is_word_char c)
      \<noteq> (case r of None \<Rightarrow> False | Some c \<Rightarrow> is_word_char c))"

definition char_at :: "string \<Rightarrow> nat \<Rightarrow> char option" where
  "char_at s i = (if i < length s then Some (s ! i) else None)"

text \<open>
  A match of the whole pattern at the start of \<open>s\<close>, where \<open>prev\<close> is the code unit
  before \<open>s\<close>: the first length, in the order of the alternatives, after which the
  closing \<open>\b\<close> holds.
\<close>

definition match_here :: "atom list list \<Rightarrow> char option \<Rightarrow> string \<Rightarrow> nat option" where
  "match_here alts prev s =
     (if word_boundary prev (char_at s 0)
      then (case filter (\<lambda>n. word_boundary (if n = 0 then prev else char_at s (n - 1))
                                            (char_at s n))
                        (concat (map (\<lambda>alt. match_atoms alt s) alts)) of
              [] \<Rightarrow> None
            | n # _ \<Rightarrow> Some n)
      else None)"

text \<open>
  \<open>text.match(pattern)\<close> with the flag \<open>g\<close>: all matches from left to right, each
  search starting where the previous match ended; an empty match advances by one code
  unit. The empty list is the result \<open>null\<close>.
\<close>

function match_all :: "atom list list \<Rightarrow> char option \<Rightarrow> string \<Rightarrow> string list" where
  "match_all alts prev [] = (case match_here alts prev [] of None \<Rightarrow> [] | Some n \<Rightarrow> [[]])"
| "match_all alts prev (c # s) =
     (case match_here alts prev (c # s) of
        None \<Rightarrow> match_all alts (Some c) s
      | Some n \<Rightarrow>
          (if n = 0 then [] # match_all alts (Some c) s
           else take n (c # s) # match_all alts (char_at (c # s) (n - 1)) (drop n (c # s))))"
  by pat_completeness auto
termination
  by (relation "measure (\<lambda>(alts, prev, s). length s)") auto

definition role_pattern :: "atom list list" where
  "role_pattern = map (\<lambda>w. [Lit w])
     [''developer'', ''engineer'', ''designer'', ''product'', ''manager'', ''founder'',
      ''ceo'', ''cto'', ''blockchain'', ''web3'', ''ai'', ''machine learning'', ''data'',
      ''frontend'', ''backend'', ''fullstack'', ''startup'', ''entrepreneur'']"

definition tech_pattern :: "atom list list" where
  "tech_pattern = map (\<lambda>w. [Lit w])
     [''react'', ''javascript'', ''python'', ''solana'', ''ethereum'', ''bitcoin'', ''defi'',
      ''nft'', ''crypto'']"

definition experience_pattern :: "atom list list" where
  "experience_pattern =
     [[Lit ''year'', OptChar (CHR ''s''), Spaces, Lit ''of'', Spaces, Lit ''experience''],
      [Lit ''experience'', Spaces, Lit ''in''],
      [Lit ''worked'', Spaces, Lit ''at''],
      [Lit ''working'', Spaces, Lit ''at'']]"

text \<open>\<open>[...new Set(xs)]\<close>: the distinct elements in the order of their first occurrence.\<close>

definition set_order :: "'a list \<Rightarrow> 'a list" where
  "set_order xs = rev (remdups (rev xs))"

definition extractKeywords :: "string option \<Rightarrow> string list" where
  "extractKeywords professionalSummary =
     (if \<not> truthy professionalSummary then []
      else let text = toLowerCase (the professionalSummary)
           in set_order (concat (map (\<lambda>pattern. match_all pattern None text)
                                     [role_pattern, tech_pattern, experience_pattern])))"

subsection \<open>Normalizing the location\<close>

definition locationMappings :: "(string \<times> string) list" where
  "locationMappings =
     [(''sf'', ''san francisco''),
      (''bay area'', ''san francisco''),
      (''silicon valley'', ''san francisco''),
      (''nyc'', ''new york''),
      (''new york city'', ''new york''),
      (''la'', ''los angeles''),
      (''sg'', ''singapore''),
      (''uk'', ''united kingdom''),
      (''usa'', ''united states''),
      (''us'', ''united states'')]"

text \<open>
  The alias table is an object literal, so a lookup also finds what the table inherits.
  The key is in lower case; the inherited names in lower case are these two.
\<close>

definition inherited_names :: "string list" where
  "inherited_names = [''constructor'', ''__proto__'']"

definition normalizeLocation :: "string option \<Rightarrow> locval" where
  "normalizeLocation loc =
     (if \<not> truthy loc then LNull
      else let normalized = trim (toLowerCase (the loc))
           in (case map_of locationMappings normalized of
                 Some city \<Rightarrow> LStr city
               | None \<Rightarrow> if normalized \<in> set inherited_names then LInherited normalized
                         else LStr normalized))"

subsection \<open>Searchable text, social links and the processed record\<close>

definition createSearchableText :: "raw_member \<Rightarrow> string" where
  "createSearchableText member =
     (let fields = [raw_name member, Some (raw_username member), raw_location member,
                    raw_professional_summary member, raw_personal_summary member,
                    raw_philosophical_summary member]
                   @ map Some (case raw_tags member of None \<Rightarrow> [] | Some ts \<Rightarrow> ts)
      in toLowerCase (join_space (map the (filter truthy fields))))"

definition processSocialLinks :: "raw_member \<Rightarrow> social" where
  "processSocialLinks member =
     \<lparr> twitter = (if truthy (raw_x_url member)
                   then Some (unescape_slashes (the (raw_x_url member))) else None),
       linkedin = (if truthy (raw_linkedin_url member)
                   then Some (unescape_slashes (the (raw_linkedin_url member))) else None),
       discord = (if truthy (raw_discord_handle member)
                  then raw_discord_handle member else None) \<rparr>"

definition processMember :: "raw_member \<Rightarrow> profile" where
  "processMember member =
     \<lparr> name = cleanText (raw_name member),
       username = raw_username member,
       location = cleanText (raw_location member),
       professional_summary = cleanText (raw_professional_summary member),
       personal_summary = cleanText (raw_personal_summary member),
       philosophical_summary = cleanText (raw_philosophical_summary member),
       tags = (case raw_tags member of None \<Rightarrow> [] | Some ts \<Rightarrow> ts),
       professional_keywords = extractKeywords (raw_professional_summary member),
       location_normalized = normalizeLocation (raw_location member),
       has_location = truthy (raw_location member),
       has_professional_summary = truthy (raw_professional_summary member),
       has_personal_summary = truthy (raw_personal_summary member),
       has_social_links = (truthy (raw_x_url member) \<or> truthy (raw_linkedin_url member)
                           \<or> truthy (raw_discord_handle member)),
       searchable_text = createSearchableText member,
       social_links = processSocialLinks member,
       x_url = raw_x_url member,
       linkedin_url = raw_linkedin_url member,
       discord_handle = raw_discord_handle member,
       post_date = raw_post_date member,
       profile_image = raw_profile_image member,
       original_text = raw_original_text member \<rparr>"

definition processData :: "raw_member list \<Rightarrow> profile list" where
  "processData rawData = map processMember rawData"

subsection \<open>Filter options\<close>

text \<open>
  \<open>.filter(l => l)\<close> on normalized locations keeps the truthy ones: not \<open>null\<close> and
  not the empty string. The default \<open>sort()\<close> orders by the string form, code unit by
  code unit; the string forms of the two inherited objects are those every current
  engine prints.
\<close>

definition locval_truthy :: "locval \<Rightarrow> bool" where
  "locval_truthy l = (case l of LNull \<Rightarrow> False | LStr s \<Rightarrow> s \<noteq> [] | LInherited _ \<Rightarrow> True)"

definition locval_string :: "locval \<Rightarrow> string" where
  "locval_string l =
     (case l of
        LNull \<Rightarrow> ''null''
      | LStr s \<Rightarrow> s
      | LInherited k \<Rightarrow> if k = ''__proto__'' then ''[object Object]''
                        else ''function Object() { [native code] }'')"

definition profession_patterns :: "string list" where
  "profession_patterns =
     [''developer'', ''engineer'', ''designer'', ''product manager'',
      ''founder'', ''ceo'', ''cto'', ''entrepreneur'', ''consultant'',
      ''data scientist'', ''researcher'', ''analyst'', ''marketer'',
      ''blockchain'', ''web3'', ''ai'', ''machine learning'']"

text \<open>
  A counter object: its keys in the order of their creation, each with its count.
  \<open>counts[k] = (counts[k] || 0) + 1\<close> on a key that needs no special care.
\<close>

fun bump :: "string \<Rightarrow> (string \<times> nat) list \<Rightarrow> (string \<times> nat) list" where
  "bump k [] = [(k, 1)]"
| "bump k ((k', n) # kvs) = (if k = k' then (k', n + 1) # kvs else (k', n) # bump k kvs)"

text \<open>Sorting pairs by descending count, \<open>sort(([,a], [,b]) => b - a)\<close>.\<close>

definition by_count_desc :: "(string \<times> nat) \<Rightarrow> (string \<times> nat) \<Rightarrow> jsnum" where
  "by_count_desc x y = js_sub (Num (of_nat (snd y))) (Num (of_nat (snd x)))"

definition extractProfessions :: "profile list option \<Rightarrow> string list" where
  "extractProfessions processedData =
     (case processedData of
        None \<Rightarrow> []
      | Some members \<Rightarrow>
          (let professionKeywords =
                 fold (\<lambda>member counts.
                        if professional_summary member \<noteq> []
                        then fold (\<lambda>pattern cs.
                                     if js_includes (toLowerCase (professional_summary member)) pattern
                                     then bump pattern cs else cs)
                                  profession_patterns counts
                        else counts)
                      members []
           in map fst (take 20 (js_sort by_count_desc professionKeywords))))"

record filter_options =
  locations :: "locval list"
  all_tags :: "string list"
  professions :: "string list"

definition getFilterOptions :: "profile list option \<Rightarrow> filter_options option" where
  "getFilterOptions processedData =
     (case processedData of
        None \<Rightarrow> None
      | Some members \<Rightarrow>
          Some \<lparr> locations = sort_key locval_string
                               (set_order (filter locval_truthy (map location_normalized members))),
                 all_tags = sort (set_order (filter (\<lambda>t. t \<noteq> []) (concat (map tags members)))),
                 professions = extractProfessions processedData \<rparr>)"

section \<open>The search engine\<close>

subsection \<open>State\<close>

text \<open>
  The active filters of the engine. The constructor creates a \<open>cohort\<close> entry that
  \<open>clearFilters\<close> drops and nothing reads. A filter specification passed to \<open>search\<close>
  has any subset of the keys; \<open>None\<close> is a key that is not there.
\<close>

record filters =
  f_search :: string
  f_location :: string
  f_profession :: string
  f_cohort :: "string option"
  f_tags :: "string list"

record filter_spec =
  s_search :: "string option"
  s_location :: "string option"
  s_profession :: "string option"
  s_cohort :: "string option"
  s_tags :: "string list option"

text \<open>
  An entry of a result list: the fields of a processed member, and the score fields that
  text search and \<open>findSimilarMembers\<close> add to their copies.
\<close>

record result =
  entry :: profile
  relevanceScore :: "nat option"
  similarityScore :: "jsnum option"

record engine =
  processedData :: "profile list option"
  activeFilters :: filters
  currentResults :: "result list"

definition initial_filters :: filters where
  "initial_filters =
     \<lparr> f_search = [], f_location = [], f_profession = [], f_cohort = Some [], f_tags = [] \<rparr>"

definition cleared_filters :: filters where
  "cleared_filters =
     \<lparr> f_search = [], f_location = [], f_profession = [], f_cohort = None, f_tags = [] \<rparr>"

definition empty_spec :: filter_spec where
  "empty_spec =
     \<lparr> s_search = None, s_location = None, s_profession = None, s_cohort = None,
       s_tags = None \<rparr>"

text \<open>\<open>{ ...this.activeFilters, ...filters }\<close>: a key of \<open>filters\<close> replaces the held one.\<close>

definition merge_filters :: "filters \<Rightarrow> filter_spec \<Rightarrow> filters" where
  "merge_filters a s =
     \<lparr> f_search = (case s_search s of None \<Rightarrow> f_search a | Some v \<Rightarrow> v),
       f_location = (case s_location s of None \<Rightarrow> f_location a | Some v \<Rightarrow> v),
       f_profession = (case s_profession s of None \<Rightarrow> f_profession a | Some v \<Rightarrow> v),
       f_cohort = (case s_cohort s of None \<Rightarrow> f_cohort a | Some v \<Rightarrow> Some v),
       f_tags = (case s_tags s of None \<Rightarrow> f_tags a | Some v \<Rightarrow> v) \<rparr>"

definition plain :: "profile \<Rightarrow> result" where
  "plain p = \<lparr> entry = p, relevanceScore = None, similarityScore = None \<rparr>"

subsection \<open>Text search\<close>

definition fuzzyMatch :: "string \<Rightarrow> string \<Rightarrow> bool" where
  "fuzzyMatch text term =
     (if length term < 4 then False
      else list_ex (\<lambda>word. if length word < 3 then False
                            else js_gt (stringSimilarity word term) (Num (7 / 10)))
                   (split_on (CHR '' '') text))"

text \<open>One round of the loop over the search terms in \<open>calculateRelevanceScore\<close>.\<close>

definition relevance_step :: "profile \<Rightarrow> string \<Rightarrow> nat \<Rightarrow> nat" where
  "relevance_step member term score =
     (let s1 = (if name member \<noteq> [] \<and> js_includes (toLowerCase (name member)) term
                then score + 10 else score);
          s2 = (if professional_summary member \<noteq> []
                   \<and> js_includes (toLowerCase (professional_summary member)) term
                then s1 + 5 else s1);
          s3 = (if list_ex (\<lambda>tag. js_includes (toLowerCase tag) term) (tags member)
                then s2 + 5 else s2);
          s4 = (if personal_summary member \<noteq> []
                   \<and> js_includes (toLowerCase (personal_summary member)) term
                then s3 + 2 else s3);
          s5 = (if location member \<noteq> [] \<and> js_includes (toLowerCase (location member)) term
                then s4 + 3 else s4)
      in s5)"

definition calculateRelevanceScore :: "profile \<Rightarrow> string list \<Rightarrow> nat" where
  "calculateRelevanceScore member searchTerms = fold (relevance_step member) searchTerms 0"

definition search_terms :: "string \<Rightarrow> string list" where
  "search_terms searchTerm =
     filter (\<lambda>term. length term > 0) (split_on (CHR '' '') (toLowerCase searchTerm))"

definition applyTextSearch :: "result list \<Rightarrow> string \<Rightarrow> result list" where
  "applyTextSearch data searchTerm =
     (if trim searchTerm = [] then data
      else let terms = search_terms searchTerm
           in map (\<lambda>member. member \<lparr> relevanceScore :=
                                Some (calculateRelevanceScore (entry member) terms) \<rparr>)
                  (filter (\<lambda>member.
                             list_all (\<lambda>term.
                                 js_includes (searchable_text (entry member)) term
                                 \<or> fuzzyMatch (searchable_text (entry member)) term)
                               terms)
                          data))"

subsection \<open>Search with the merged filters\<close>

definition location_matches :: "filters \<Rightarrow> result \<Rightarrow> bool" where
  "location_matches af member =
     (location_normalized (entry member) = LStr (f_location af))"

definition profession_matches :: "filters \<Rightarrow> result \<Rightarrow> bool" where
  "profession_matches af member =
     (professional_summary (entry member) \<noteq> []
      \<and> js_includes (toLowerCase (professional_summary (entry member)))
                     (toLowerCase (f_profession af)))"

definition tags_match :: "filters \<Rightarrow> result \<Rightarrow> bool" where
  "tags_match af member =
     list_ex (\<lambda>tag. list_ex (\<lambda>memberTag. js_includes (toLowerCase memberTag) (toLowerCase tag))
                             (tags (entry member)))
             (f_tags af)"

definition run_filters :: "filters \<Rightarrow> profile list \<Rightarrow> result list" where
  "run_filters af members =
     (let r0 = map plain members;
          r1 = (if f_search af \<noteq> [] then applyTextSearch r0 (f_search af) else r0);
          r2 = (if f_location af \<noteq> [] then filter (location_matches af) r1 else r1);
          r3 = (if f_profession af \<noteq> [] then filter (profession_matches af) r2 else r2);
          r4 = (if length (f_tags af) > 0 then filter (tags_match af) r3 else r3)
      in r4)"

definition search :: "engine \<Rightarrow> filter_spec \<Rightarrow> result list \<times> engine" where
  "search e spec =
     (case processedData e of
        None \<Rightarrow> ([], e)
      | Some members \<Rightarrow>
          (let af = merge_filters (activeFilters e) spec;
               results = run_filters af members
           in (results, e \<lparr> activeFilters := af, currentResults := results \<rparr>)))"

definition clearFilters :: "engine \<Rightarrow> result list \<times> engine" where
  "clearFilters e = search (e \<lparr> activeFilters := cleared_filters \<rparr>) empty_spec"

subsection \<open>Similar members\<close>

text \<open>
  The guards \<open>member1.tags && member2.tags\<close> and
  \<open>member1.professional_keywords && member2.professional_keywords\<close> test two arrays,
  which are truthy also when empty: on processed members both guards always hold.
\<close>

definition calculateProfileSimilarity :: "profile \<Rightarrow> profile \<Rightarrow> jsnum" where
  "calculateProfileSimilarity member1 member2 =
     (let score0 = Num 0;
          score1 = (if location_normalized member1 = location_normalized member2
                    then js_add score0 (Num (3 / 10)) else score0);
          commonTags = filter (\<lambda>tag. list_ex (\<lambda>tag2. toLowerCase tag2 = toLowerCase tag)
                                                (tags member2))
                              (tags member1);
          score2 = js_add score1
                     (js_scale (js_div (int (length commonTags))
                                       (int (max (length (tags member1)) (length (tags member2)))))
                               (4 / 10));
          commonKeywords = filter (\<lambda>keyword. keyword \<in> set (professional_keywords member2))
                                  (professional_keywords member1);
          score3 = js_add score2
                     (js_scale (js_div (int (length commonKeywords))
                                       (int (max (length (professional_keywords member1))
                                                 (length (professional_keywords member2)))))
                               (1 / 10))
      in score3)"

text \<open>A score field in arithmetic: a field that is not there is \<open>undefined\<close>, hence \<open>NaN\<close>.\<close>

definition num_of :: "jsnum option \<Rightarrow> jsnum" where
  "num_of v = (case v of None \<Rightarrow> NaN | Some x \<Rightarrow> x)"

definition by_similarity_desc :: "result \<Rightarrow> result \<Rightarrow> jsnum" where
  "by_similarity_desc a b = js_sub (num_of (similarityScore b)) (num_of (similarityScore a))"

text \<open>
  \<open>findSimilarMembers(targetMember, count)\<close>; a target that is \<open>null\<close> or
  \<open>undefined\<close> is \<open>None\<close>, and \<open>count\<close> is a number of entries.
\<close>

definition findSimilarMembers :: "engine \<Rightarrow> profile option \<Rightarrow> nat \<Rightarrow> result list" where
  "findSimilarMembers e targetMember count =
     (case (targetMember, processedData e) of
        (Some target, Some members) \<Rightarrow>
          take count
            (js_sort by_similarity_desc
               (map (\<lambda>member. (plain member)
                       \<lparr> similarityScore := Some (calculateProfileSimilarity target member) \<rparr>)
                    (filter (\<lambda>member. username member \<noteq> username target) members)))
      | _ \<Rightarrow> [])"

subsection \<open>Sorting results\<close>

text \<open>
  \<open>localeCompare\<close> belongs to the host and depends on its locale; it is a parameter
  \<open>lc\<close> that returns the sign as an integer. An empty name is falsy, so
  \<open>a.name || ''\<close> is the name.
\<close>

definition by_name :: "(string \<Rightarrow> string \<Rightarrow> int) \<Rightarrow> result \<Rightarrow> result \<Rightarrow> jsnum" where
  "by_name lc a b = Num (of_int (lc (name (entry a)) (name (entry b))))"

definition date_or_zero :: "int option \<Rightarrow> int" where
  "date_or_zero d = (case d of None \<Rightarrow> 0 | Some t \<Rightarrow> t)"

definition by_recent :: "result \<Rightarrow> result \<Rightarrow> jsnum" where
  "by_recent a b =
     Num (of_int (date_or_zero (post_date (entry b)) - date_or_zero (post_date (entry a))))"

definition sortResults ::
  "(string \<Rightarrow> string \<Rightarrow> int) \<Rightarrow> result list \<Rightarrow> string \<Rightarrow> result list" where
  "sortResults lc results sortBy =
     (let sorted = results
      in if sortBy = ''name'' then js_sort (by_name lc) sorted
         else if sortBy = ''recent'' then js_sort by_recent sorted
         else js_sort (by_name lc) sorted)"

subsection \<open>Trending tags\<close>

text \<open>
  The counter \<open>tagCounts\<close> is a plain object. \<open>Object.entries\<close> lists the keys that are
  array indices first, in ascending numeric order, then the other keys in the order of
  their creation. A tag that names a member inherited from \<open>Object.prototype\<close> finds
  that member instead of a count; what the counter then holds is no number and depends
  on the engine, and the model gives no result (\<open>None\<close>) for a collection with such a tag.
\<close>

definition prototype_names :: "string list" where
  "prototype_names =
     [''constructor'', ''__defineGetter__'', ''__defineSetter__'', ''hasOwnProperty'',
      ''__lookupGetter__'', ''__lookupSetter__'', ''isPrototypeOf'', ''propertyIsEnumerable'',
      ''toString'', ''valueOf'', ''__proto__'', ''toLocaleString'']"

definition digit_value :: "char \<Rightarrow> int" where
  "digit_value c = of_char c - 48"

definition decimal_value :: "string \<Rightarrow> int" where
  "decimal_value s = fold (\<lambda>c n. 10 * n + digit_value c) s 0"

definition is_array_index :: "string \<Rightarrow> bool" where
  "is_array_index s =
     (s \<noteq> [] \<and> list_all (\<lambda>c. CHR ''0'' \<le> c \<and> c \<le> CHR ''9'') s
      \<and> (s = ''0'' \<or> hd s \<noteq> CHR ''0'') \<and> decimal_value s < 4294967295)"

definition object_entries :: "(string \<times> nat) list \<Rightarrow> (string \<times> nat) list" where
  "object_entries kvs =
     sort_key (\<lambda>kv. decimal_value (fst kv)) (filter (\<lambda>kv. is_array_index (fst kv)) kvs)
     @ filter (\<lambda>kv. \<not> is_array_index (fst kv)) kvs"

definition getTrendingTags :: "engine \<Rightarrow> nat \<Rightarrow> (string \<times> nat) list option" where
  "getTrendingTags e limit =
     (case processedData e of
        None \<Rightarrow> Some []
      | Some members \<Rightarrow>
          (if list_ex (\<lambda>member. list_ex (\<lambda>tag. tag \<in> set prototype_names) (tags member)) members
           then None
           else let tagCounts = fold (\<lambda>member counts. fold bump (tags member) counts) members []
                in Some (take limit (js_sort by_count_desc (object_entries tagCounts)))))"

section \<open>Example records\<close>

text \<open>A raw record with a username and no optional field, and a small collection.\<close>

definition bare_member :: "string \<Rightarrow> raw_member" where
  "bare_member u =
     \<lparr> raw_name = None, raw_username = u, raw_location = None,
       raw_professional_summary = None, raw_personal_summary = None,
       raw_philosophical_summary = None, raw_tags = None, raw_x_url = None,
       raw_linkedin_url = None, raw_discord_handle = None, raw_post_date = None,
       raw_profile_image = None, raw_original_text = None \<rparr>"

definition ann :: raw_member where
  "ann = (bare_member ''ann'')
     \<lparr> raw_name := Some ''Ann'', raw_location := Some ''Paris'', raw_tags := Some [''design''] \<rparr>"

definition bob :: raw_member where
  "bob = bare_member ''bob''"

definition cat :: raw_member where
  "cat = (bare_member ''cat'')
     \<lparr> raw_name := Some ''Cat'', raw_professional_summary := Some ''Founder of a blockchain startup'',
       raw_tags := Some [''ai''] \<rparr>"

definition tom :: raw_member where
  "tom = (bare_member ''tom'')
     \<lparr> raw_name := Some ''Tom'', raw_professional_summary := Some ''Founder'' \<rparr>"

definition example_engine :: engine where
  "example_engine =
     \<lparr> processedData = Some (processData [ann, bob, cat, tom]),
       activeFilters = initial_filters, currentResults = [] \<rparr>"


definition founder_search :: filter_spec where
  "founder_search = empty_spec \<lparr> s_search := Some ''founder'' \<rparr>"

text \<open>A member whose location is two spaces.\<close>

definition dan :: raw_member where
  "dan = (bare_member ''dan'') \<lparr> raw_location := Some ''  '' \<rparr>"

text \<open>
  A member whose summary has a line feed between two words, a member with a name of two
  words, and a search text with a tab between two words.
\<close>

definition eve :: raw_member where
  "eve = (bare_member ''eve'')
     \<lparr> raw_professional_summary := Some (''Senior'' @ [CHR 0x0A] @ ''developer'') \<rparr>"

definition sam :: raw_member where
  "sam = (bare_member ''sam'') \<lparr> raw_name := Some ''Sam Smith'' \<rparr>"

definition tab_text :: string where
  "tab_text = ''sam'' @ [CHR 0x09] @ ''smith''"

section \<open>The statements of the specification\<close>

subsection \<open>Relevance\<close>

text \<open>
  The relevance score as the specification words it: for each search term, 10 if the term
  is a case-insensitive substring of the name, 5 for the professional summary, 5 if any
  tag contains it, 2 for the personal summary, 3 for the raw location string; the sum
  over all terms.
\<close>

definition ci_contains :: "string \<Rightarrow> string \<Rightarrow> bool" where
  "ci_contains s t = js_includes (toLowerCase s) (toLowerCase t)"

definition relevance_of_term :: "profile \<Rightarrow> string \<Rightarrow> nat" where
  "relevance_of_term p t =
     (if ci_contains (name p) t then 10 else 0)
     + (if ci_contains (professional_summary p) t then 5 else 0)
     + (if list_ex (\<lambda>tag. ci_contains tag t) (tags p) then 5 else 0)
     + (if ci_contains (personal_summary p) t then 2 else 0)
     + (if ci_contains (location p) t then 3 else 0)"

definition relevance_spec :: "profile \<Rightarrow> string list \<Rightarrow> nat" where
  "relevance_spec p terms = sum_list (map (relevance_of_term p) terms)"

subsection \<open>The text filter\<close>

text \<open>
  Splitting at white space, as the specification words it: the maximal runs of code units
  that are not white space.
\<close>

fun split_where :: "(char \<Rightarrow> bool) \<Rightarrow> string \<Rightarrow> string list" where
  "split_where P [] = [[]]"
| "split_where P (x # xs) =
     (let r = split_where P xs in if P x then [] # r else (x # hd r) # tl r)"

definition ws_words :: "string \<Rightarrow> string list" where
  "ws_words s = filter (\<lambda>w. w \<noteq> []) (split_where is_space s)"

text \<open>
  The text filter with the terms and words delimited by white space (the specification),
  and with both delimited by the space character U+0020 (the code). In both, a term
  passes on a searchable text if it is a substring of it, or has at least 4 code units
  and is more than 0.7 similar to a word of at least 3 code units.
\<close>

definition term_passes :: "string list \<Rightarrow> string \<Rightarrow> string \<Rightarrow> bool" where
  "term_passes ws st term =
     (js_includes st term
      \<or> (4 \<le> length term
          \<and> list_ex (\<lambda>w. 3 \<le> length w \<and> js_gt (similarity_formula w term) (Num (7 / 10))) ws))"

definition passes_text_spec :: "string \<Rightarrow> string \<Rightarrow> bool" where
  "passes_text_spec text st =
     list_all (term_passes (ws_words st) st) (ws_words (toLowerCase text))"

definition passes_text :: "string \<Rightarrow> string \<Rightarrow> bool" where
  "passes_text text st =
     list_all (term_passes (split_on (CHR '' '') st) st) (search_terms text)"

subsection \<open>Filters as a predicate on members\<close>

definition accepts :: "filters \<Rightarrow> profile \<Rightarrow> bool" where
  "accepts af p =
     ((trim (f_search af) = [] \<or> passes_text (f_search af) (searchable_text p))
      \<and> (f_location af = [] \<or> location_normalized p = LStr (f_location af))
      \<and> (f_profession af = []
          \<or> ci_contains (professional_summary p) (f_profession af))
      \<and> (f_tags af = []
          \<or> list_ex (\<lambda>tag. list_ex (\<lambda>memberTag. ci_contains memberTag tag) (tags p))
                     (f_tags af)))"

text \<open>
  \<open>populates_more f g\<close>: the filters \<open>g\<close> agree with \<open>f\<close> on every field that \<open>f\<close>
  populates, and may populate further fields.
\<close>

definition populates_more :: "filters \<Rightarrow> filters \<Rightarrow> bool" where
  "populates_more f g =
     ((f_search f = [] \<or> f_search g = f_search f)
      \<and> (f_location f = [] \<or> f_location g = f_location f)
      \<and> (f_profession f = [] \<or> f_profession g = f_profession f)
      \<and> (f_tags f = [] \<or> f_tags g = f_tags f))"

definition usernames :: "result list \<Rightarrow> string list" where
  "usernames rs = map (\<lambda>r. username (entry r)) rs"

section \<open>Objects and arrays in a store\<close>

text \<open>
  To state which operations mutate what they are given, member objects and arrays live in
  a store: a reference is a number, the references below \<open>next_ref\<close> are allocated, an
  object is a result entry and an array a list of references to objects. The array
  methods are modelled as JavaScript defines them: \<open>filter\<close>, \<open>map\<close>, \<open>slice\<close> and the
  spread \<open>[...xs]\<close> allocate a new array, an object literal \<open>{...member, score}\<close>
  allocates a new object, and \<open>sort\<close> reorders the array it is called on and returns it.
\<close>

type_synonym ref = nat

record heap =
  objects :: "ref \<Rightarrow> result"
  arrays :: "ref \<Rightarrow> ref list"
  next_ref :: ref

definition new_array :: "heap \<Rightarrow> ref list \<Rightarrow> heap \<times> ref" where
  "new_array h rs =
     (h \<lparr> arrays := (arrays h) (next_ref h := rs), next_ref := Suc (next_ref h) \<rparr>, next_ref h)"

definition new_object :: "heap \<Rightarrow> result \<Rightarrow> heap \<times> ref" where
  "new_object h v =
     (h \<lparr> objects := (objects h) (next_ref h := v), next_ref := Suc (next_ref h) \<rparr>, next_ref h)"

fun new_objects :: "heap \<Rightarrow> result list \<Rightarrow> heap \<times> ref list" where
  "new_objects h [] = (h, [])"
| "new_objects h (v # vs) =
     (let (h1, r) = new_object h v; (h2, rs) = new_objects h1 vs in (h2, r # rs))"

definition array_copy :: "heap \<Rightarrow> ref \<Rightarrow> heap \<times> ref" where
  "array_copy h a = new_array h (arrays h a)"

definition array_filter :: "heap \<Rightarrow> ref \<Rightarrow> (result \<Rightarrow> bool) \<Rightarrow> heap \<times> ref" where
  "array_filter h a p = new_array h (filter (\<lambda>r. p (objects h r)) (arrays h a))"

text \<open>\<open>xs.map(f)\<close> for a callback that returns a new object literal.\<close>

definition array_map_new :: "heap \<Rightarrow> ref \<Rightarrow> (result \<Rightarrow> result) \<Rightarrow> heap \<times> ref" where
  "array_map_new h a f =
     (let (h1, rs) = new_objects h (map (\<lambda>r. f (objects h r)) (arrays h a))
      in new_array h1 rs)"

definition array_sort :: "heap \<Rightarrow> ref \<Rightarrow> (result \<Rightarrow> result \<Rightarrow> jsnum) \<Rightarrow> heap" where
  "array_sort h a cmp =
     h \<lparr> arrays := (arrays h) (a := js_sort (\<lambda>x y. cmp (objects h x) (objects h y)) (arrays h a)) \<rparr>"

definition array_slice :: "heap \<Rightarrow> ref \<Rightarrow> nat \<Rightarrow> heap \<times> ref" where
  "array_slice h a n = new_array h (take n (arrays h a))"

text \<open>The values an array holds.\<close>

definition view :: "heap \<Rightarrow> ref \<Rightarrow> result list" where
  "view h a = map (objects h) (arrays h a)"

text \<open>The three operations, statement by statement, on the store.\<close>

definition sortResults_h ::
  "(string \<Rightarrow> string \<Rightarrow> int) \<Rightarrow> heap \<Rightarrow> ref \<Rightarrow> string \<Rightarrow> heap \<times> ref" where
  "sortResults_h lc h results sortBy =
     (let (h1, sorted) = array_copy h results
      in if sortBy = ''name'' then (array_sort h1 sorted (by_name lc), sorted)
         else if sortBy = ''recent'' then (array_sort h1 sorted by_recent, sorted)
         else (array_sort h1 sorted (by_name lc), sorted))"

definition applyTextSearch_h :: "heap \<Rightarrow> ref \<Rightarrow> string \<Rightarrow> heap \<times> ref" where
  "applyTextSearch_h h data searchTerm =
     (if trim searchTerm = [] then (h, data)
      else let terms = search_terms searchTerm;
               (h1, kept) = array_filter h data
                  (\<lambda>member. list_all (\<lambda>term.
                       js_includes (searchable_text (entry member)) term
                       \<or> fuzzyMatch (searchable_text (entry member)) term) terms)
           in array_map_new h1 kept
                (\<lambda>member. member \<lparr> relevanceScore :=
                     Some (calculateRelevanceScore (entry member) terms) \<rparr>))"

definition findSimilarMembers_h ::
  "heap \<Rightarrow> ref option \<Rightarrow> ref option \<Rightarrow> nat \<Rightarrow> heap \<times> ref" where
  "findSimilarMembers_h h processed targetMember count =
     (case (targetMember, processed) of
        (Some target, Some members) \<Rightarrow>
          (let (h1, others) = array_filter h members
                 (\<lambda>member. username (entry member) \<noteq> username (entry (objects h target)));
               (h2, scored) = array_map_new h1 others
                 (\<lambda>member. member \<lparr> similarityScore :=
                      Some (calculateProfileSimilarity (entry (objects h1 target))
                                                       (entry member)) \<rparr>);
               h3 = array_sort h2 scored by_similarity_desc
           in array_slice h3 scored count)
      | _ \<Rightarrow> new_array h [])"

text \<open>
  \<open>unchanged h h'\<close>: every object and every array allocated in \<open>h\<close> is the same in
  \<open>h'\<close>, and nothing was freed.
\<close>

definition unchanged :: "heap \<Rightarrow> heap \<Rightarrow> bool" where
  "unchanged h h' =
     (next_ref h \<le> next_ref h'
      \<and> (\<forall>r<next_ref h. objects h' r = objects h r \<and> arrays h' r = arrays h r))"

text \<open>An array of \<open>h\<close> that is allocated, as are the objects it refers to.\<close>

definition allocated :: "heap \<Rightarrow> ref \<Rightarrow> bool" where
  "allocated h a = (a < next_ref h \<and> list_all (\<lambda>r. r < next_ref h) (arrays h a))"

text \<open>
  A store with three member objects and one array of them, and a comparison of strings
  by code units in the place of \<open>localeCompare\<close>.
\<close>

definition example_heap :: heap where
  "example_heap =
     \<lparr> objects = (\<lambda>r. plain (processMember bob))
                   (0 := plain (processMember tom), 1 := plain (processMember cat),
                    2 := plain (processMember ann)),
       arrays = (\<lambda>r. []) (3 := [0, 1, 2]),
       next_ref = 4 \<rparr>"

definition code_unit_compare :: "string \<Rightarrow> string \<Rightarrow> int" where
  "code_unit_compare a b = (if a < b then - 1 else if a = b then 0 else 1)"



definition ann_search :: filter_spec where
  "ann_search = empty_spec \<lparr> s_search := Some ''ann'' \<rparr>"

definition founder_engine :: engine where
  "founder_engine = snd (search example_engine founder_search)"

section \<open>Correctness of the edit distance\<close>

subsection \<open>The classic distance is the least cost of an edit sequence\<close>

lemma classic_Nil_right [simp]: "levenshtein_classic xs [] = length xs"
  by (cases xs) simp_all

lemma edits_all_insert: "edits [] ys (length ys)"
  by (induction ys) (auto intro: edits.intros)

lemma edits_all_delete: "edits xs [] (length xs)"
  by (induction xs) (auto intro: edits.intros)

lemma edits_classic: "edits xs ys (levenshtein_classic xs ys)"
proof (induction xs ys rule: levenshtein_classic.induct)
  case (1 ys)
  show ?case by (simp add: edits_all_insert)
next
  case (2 x xs)
  show ?case using edits_all_delete [of "x # xs"] by simp
next
  case (3 x xs y ys)
  let ?d = "levenshtein_classic xs ys + (if x = y then 0 else 1)"
  let ?l = "levenshtein_classic xs (y # ys) + 1"
  let ?u = "levenshtein_classic (x # xs) ys + 1"
  have d: "edits (x # xs) (y # ys) ?d"
    using 3(1) by (auto intro: edits.intros)
  have l: "edits (x # xs) (y # ys) ?l"
    using 3(2) by (auto intro: edits.intros)
  have u: "edits (x # xs) (y # ys) ?u"
    using 3(3) by (auto intro: edits.intros)
  have "min ?d (min ?l ?u) = ?d \<or> min ?d (min ?l ?u) = ?l \<or> min ?d (min ?l ?u) = ?u"
    by (simp add: min_def)
  then show ?case using d l u
    by (metis levenshtein_classic.simps(3))
qed

lemma classic_le_edits: "edits xs ys n \<Longrightarrow> levenshtein_classic xs ys \<le> n"
proof (induction rule: edits.induct)
  case e_nil
  show ?case by simp
next
  case (e_keep xs ys n x)
  then show ?case by (simp add: min_le_iff_disj)
next
  case (e_subst xs ys n x y)
  then show ?case by (simp add: min_le_iff_disj)
next
  case (e_delete xs ys n x)
  show ?case
  proof (cases ys)
    case Nil
    then show ?thesis using e_delete.IH by simp
  next
    case (Cons y ys')
    then show ?thesis using e_delete.IH by (simp add: min_le_iff_disj)
  qed
next
  case (e_insert xs ys n y)
  show ?case
  proof (cases xs)
    case Nil
    then show ?thesis using e_insert.IH by simp
  next
    case (Cons x xs')
    then show ?thesis using e_insert.IH by (simp add: min_le_iff_disj)
  qed
qed

lemma edits_drop_right: "edits xs zs n \<Longrightarrow> zs = y # ys \<Longrightarrow> \<exists>m\<le>Suc n. edits xs ys m"
proof (induction arbitrary: y ys rule: edits.induct)
  case e_nil
  then show ?case by simp
next
  case (e_keep xs ys' n x)
  then show ?case by (auto intro: edits.intros)
next
  case (e_subst xs ys' n x y')
  then have "edits (x # xs) ys (Suc n)" by (auto intro: edits.intros)
  then show ?case by (meson le_SucI order_refl)
next
  case (e_delete xs ys' n x)
  then obtain m where "m \<le> Suc n" "edits xs ys m" by blast
  then have "edits (x # xs) ys (Suc m)" "Suc m \<le> Suc (Suc n)" by (auto intro: edits.intros)
  then show ?case by blast
next
  case (e_insert xs ys' n y')
  then have "edits xs ys n" by simp
  then show ?case by (meson le_SucI order_refl)
qed

lemma edits_drop_left: "edits zs ys n \<Longrightarrow> zs = x # xs \<Longrightarrow> \<exists>m\<le>Suc n. edits xs ys m"
proof (induction arbitrary: x xs rule: edits.induct)
  case e_nil
  then show ?case by simp
next
  case (e_keep xs' ys n x')
  then show ?case by (auto intro: edits.intros)
next
  case (e_subst xs' ys n x' y)
  then have "edits xs (y # ys) (Suc n)" by (auto intro: edits.intros)
  then show ?case by (meson le_SucI order_refl)
next
  case (e_delete xs' ys n x')
  then have "edits xs ys n" by simp
  then show ?case by (meson le_SucI order_refl)
next
  case (e_insert xs' ys n y)
  then obtain m where "m \<le> Suc n" "edits xs ys m" by blast
  then have "edits xs (y # ys) (Suc m)" "Suc m \<le> Suc (Suc n)" by (auto intro: edits.intros)
  then show ?case by blast
qed

lemma classic_drop_right: "levenshtein_classic xs ys \<le> Suc (levenshtein_classic xs (y # ys))"
proof -
  obtain m where "m \<le> Suc (levenshtein_classic xs (y # ys))" "edits xs ys m"
    using edits_drop_right [OF edits_classic [of xs "y # ys"] refl] by blast
  then show ?thesis using classic_le_edits by fastforce
qed

lemma classic_drop_left: "levenshtein_classic xs ys \<le> Suc (levenshtein_classic (x # xs) ys)"
proof -
  obtain m where "m \<le> Suc (levenshtein_classic (x # xs) ys)" "edits xs ys m"
    using edits_drop_left [OF edits_classic [of "x # xs" ys] refl] by blast
  then show ?thesis using classic_le_edits by fastforce
qed

lemma classic_same_head:
  "levenshtein_classic (x # xs) (x # ys) = levenshtein_classic xs ys"
  using classic_drop_right [of xs ys x] classic_drop_left [of xs ys x] by simp

lemma edits_snoc_keep: "edits xs ys n \<Longrightarrow> edits (xs @ [x]) (ys @ [x]) n"
  by (induction rule: edits.induct) (auto intro: edits.intros)

lemma edits_snoc_subst: "edits xs ys n \<Longrightarrow> edits (xs @ [x]) (ys @ [y]) (Suc n)"
  by (induction rule: edits.induct) (auto intro: edits.intros)

lemma edits_snoc_delete: "edits xs ys n \<Longrightarrow> edits (xs @ [x]) ys (Suc n)"
  by (induction rule: edits.induct) (auto intro: edits.intros)

lemma edits_snoc_insert: "edits xs ys n \<Longrightarrow> edits xs (ys @ [y]) (Suc n)"
  by (induction rule: edits.induct) (auto intro: edits.intros)

lemma edits_rev: "edits xs ys n \<Longrightarrow> edits (rev xs) (rev ys) n"
  by (induction rule: edits.induct)
     (auto intro: e_nil edits_snoc_keep edits_snoc_subst edits_snoc_delete edits_snoc_insert)

lemma classic_rev: "levenshtein_classic (rev xs) (rev ys) = levenshtein_classic xs ys"
proof (rule antisym)
  show "levenshtein_classic (rev xs) (rev ys) \<le> levenshtein_classic xs ys"
    using classic_le_edits [OF edits_rev [OF edits_classic [of xs ys]]] .
  show "levenshtein_classic xs ys \<le> levenshtein_classic (rev xs) (rev ys)"
    using classic_le_edits [OF edits_rev [OF edits_classic [of "rev xs" "rev ys"]]] by simp
qed

subsection \<open>The matrix of the code holds the classic distance\<close>

lemma dp_classic:
  "i \<le> length b \<Longrightarrow> j \<le> length a \<Longrightarrow>
   dp a b i j = levenshtein_classic (rev (take j a)) (rev (take i b))"
proof (induction a b i j rule: dp.induct)
  case (1 a b j)
  then show ?case by simp
next
  case (2 a b i)
  then show ?case by (simp add: take_Suc_conv_app_nth)
next
  case (3 a b i j)
  then have ij: "i < length b" "j < length a" by simp_all
  have ta: "rev (take (Suc j) a) = a ! j # rev (take j a)"
    using ij by (simp add: take_Suc_conv_app_nth)
  have tb: "rev (take (Suc i) b) = b ! i # rev (take i b)"
    using ij by (simp add: take_Suc_conv_app_nth)
  show ?case
  proof (cases "b ! i = a ! j")
    case True
    then show ?thesis using 3 ij ta tb by (simp add: classic_same_head del: levenshtein_classic.simps)
  next
    case False
    then show ?thesis using 3 ij ta tb by (simp add: min.assoc min.commute min.left_commute)
  qed
qed

lemma fold_js_write_upt:
  "fold (\<lambda>i m. js_write m i (f i)) [0..<n] [] = map f [0..<n]"
  by (induction n) (simp_all add: js_write_def)

lemma lev_init_rows_eq: "lev_init_rows n = map (\<lambda>k. Some [Some k]) [0..<Suc n]"
  unfolding lev_init_rows_def by (rule fold_js_write_upt)

lemma init_cols_aux:
  "fold (\<lambda>j m. set_cell m 0 j (Some j)) [0..<Suc n] (Some [Some 0] # rest)
   = Some (map Some [0..<Suc n]) # rest"
proof (induction n)
  case 0
  show ?case by (simp add: set_cell_def js_read_def js_write_def)
next
  case (Suc n)
  have "[0..<Suc (Suc n)] = [0..<Suc n] @ [Suc n]" by simp
  then show ?case using Suc
    by (simp add: set_cell_def js_read_def js_write_def del: upt_Suc)
qed

lemma init_inv:
  "mat_inv a b (lev_init_cols (length a) (lev_init_rows (length b))) 0
     (row_part a b 0 (Suc (length a)))"
proof -
  have "lev_init_rows (length b) = Some [Some 0] # map (\<lambda>k. Some [Some k]) [1..<Suc (length b)]"
    unfolding lev_init_rows_eq by (simp add: upt_conv_Cons del: upt_Suc)
  then have "lev_init_cols (length a) (lev_init_rows (length b))
      = Some (row_part a b 0 (Suc (length a))) # map (\<lambda>k. Some [Some k]) [1..<Suc (length b)]"
    unfolding lev_init_cols_def by (simp add: init_cols_aux row_part_def del: upt_Suc)
  then show ?thesis
    by (auto simp: mat_inv_def nth_Cons' simp del: upt_Suc)
qed

lemma cell_inv_done:
  "mat_inv a b m i r \<Longrightarrow> k < i \<Longrightarrow> j \<le> length a \<Longrightarrow> cell m k j = Some (dp a b k j)"
  by (auto simp: mat_inv_def cell_def js_read_def row_part_def simp del: upt_Suc)

lemma cell_inv_cur:
  "mat_inv a b m i (row_part a b i j) \<Longrightarrow> k < j \<Longrightarrow> cell m i k = Some (dp a b i k)"
  by (auto simp: mat_inv_def cell_def js_read_def row_part_def simp del: upt_Suc)

lemma set_cell_inv:
  "mat_inv a b m i (row_part a b i j) \<Longrightarrow>
   mat_inv a b (set_cell m i j (Some (dp a b i j))) i (row_part a b i (Suc j))"
  by (auto simp: mat_inv_def set_cell_def js_read_def js_write_def row_part_def nth_list_update)

lemma lev_step_inv:
  assumes inv: "mat_inv a b m i (row_part a b i j)"
    and i: "0 < i" and j: "0 < j" "j \<le> length a"
  shows "mat_inv a b (lev_step a b i j m) i (row_part a b i (Suc j))"
proof -
  obtain i' j' where ij: "i = Suc i'" "j = Suc j'"
    using i j by (metis Suc_pred)
  have ib: "i \<le> length b" using inv by (simp add: mat_inv_def)
  have c1: "cell m i' j' = Some (dp a b i' j')"
    using cell_inv_done [OF inv, of i' j'] ij j by simp
  have c2: "cell m i j' = Some (dp a b i j')"
    using cell_inv_cur [OF inv, of j'] ij by simp
  have c3: "cell m i' j = Some (dp a b i' j)"
    using cell_inv_done [OF inv, of i' j] ij j by simp
  have ch: "(charAt b i' = charAt a j') = (b ! i' = a ! j')"
    using ib ij j by (simp add: charAt_def)
  have "lev_step a b i j m = set_cell m i j (Some (dp a b i j))"
    using c1 c2 c3 ch ij
    by (simp add: lev_step_def cell_succ_def cell_min3_def)
  then show ?thesis using set_cell_inv [OF inv] by simp
qed

lemma inner_loop_inv:
  "mat_inv a b m i (row_part a b i j) \<Longrightarrow> 0 < i \<Longrightarrow> 0 < j \<Longrightarrow> j \<le> Suc (length a) \<Longrightarrow>
   mat_inv a b (fold (\<lambda>j m'. lev_step a b i j m') [j..<Suc (length a)] m) i
     (row_part a b i (Suc (length a)))"
proof (induction "Suc (length a) - j" arbitrary: j m)
  case 0
  then have "j = Suc (length a)" by simp
  then show ?case using 0 by simp
next
  case (Suc n)
  then have jl: "j \<le> length a" by simp
  then have upt: "[j..<Suc (length a)] = j # [Suc j..<Suc (length a)]"
    by (simp add: upt_conv_Cons del: upt_Suc)
  have step: "mat_inv a b (lev_step a b i j m) i (row_part a b i (Suc j))"
    using lev_step_inv [OF Suc.prems(1) Suc.prems(2) Suc.prems(3) jl] .
  have "n = Suc (length a) - Suc j" using Suc.hyps(2) by simp
  from Suc.hyps(1) [OF this step Suc.prems(2)] jl
  show ?case unfolding upt by simp
qed

lemma row_part_1: "row_part a b (Suc i) 1 = [Some (Suc i)]"
  by (simp add: row_part_def)

lemma next_row_inv:
  "mat_inv a b m i (row_part a b i (Suc (length a))) \<Longrightarrow> i < length b \<Longrightarrow>
   mat_inv a b m (Suc i) (row_part a b (Suc i) 1)"
  unfolding row_part_1 by (auto simp: mat_inv_def less_Suc_eq)

lemma outer_loop_inv:
  "mat_inv a b m i (row_part a b i 1) \<Longrightarrow> 0 < i \<Longrightarrow>
   mat_inv a b
     (fold (\<lambda>i m. fold (\<lambda>j m'. lev_step a b i j m') [1..<Suc (length a)] m)
           [i..<Suc (length b)] m)
     (length b) (row_part a b (length b) (Suc (length a)))"
proof (induction "length b - i" arbitrary: i m)
  case 0
  then have ib: "i = length b" by (simp add: mat_inv_def)
  have "mat_inv a b (fold (\<lambda>j m'. lev_step a b i j m') [1..<Suc (length a)] m) i
          (row_part a b i (Suc (length a)))"
    using inner_loop_inv [OF 0(2) 0(3)] by simp
  then show ?case using ib by simp
next
  case (Suc n)
  then have il: "i < length b" by simp
  then have upt: "[i..<Suc (length b)] = i # [Suc i..<Suc (length b)]"
    by (simp add: upt_conv_Cons del: upt_Suc)
  have inner: "mat_inv a b (fold (\<lambda>j m'. lev_step a b i j m') [1..<Suc (length a)] m) i
          (row_part a b i (Suc (length a)))"
    using inner_loop_inv [OF Suc.prems(1) Suc.prems(2)] by simp
  have "n = length b - Suc i" using Suc.hyps(2) by simp
  from Suc.hyps(1) [OF this next_row_inv [OF inner il]]
  show ?case unfolding upt by simp
qed

lemma lev_fill_inv:
  "mat_inv a b (lev_fill a b (lev_init_cols (length a) (lev_init_rows (length b))))
     (length b) (row_part a b (length b) (Suc (length a)))"
proof (cases "length b")
  case 0
  then show ?thesis using init_inv [of a b] by (simp add: lev_fill_def)
next
  case (Suc n)
  then have "0 < length b" by simp
  from outer_loop_inv [OF next_row_inv [OF init_inv [of a b] this]]
  show ?thesis by (simp add: lev_fill_def)
qed

lemma levenshteinDistance_dp:
  "levenshteinDistance a b = Some (dp a b (length b) (length a))"
  using lev_fill_inv [of a b]
  by (simp add: levenshteinDistance_def mat_inv_def cell_def js_read_def row_part_def
           del: upt_Suc)

lemma levenshteinDistance_classic:
  "levenshteinDistance a b = Some (levenshtein_classic a b)"
  by (simp add: levenshteinDistance_dp dp_classic classic_rev)

lemma classic_refl [simp]: "levenshtein_classic xs xs = 0"
  by (induction xs) simp_all

text \<open>
  The classic distance is the least cost of a sequence of edits, so the recursion above
  defines the edit distance with insertion, deletion and substitution at cost 1 each.
\<close>

lemma levenshtein_classic_least:
  "edits a b (levenshtein_classic a b) \<and> (\<forall>n. edits a b n \<longrightarrow> levenshtein_classic a b \<le> n)"
  using edits_classic classic_le_edits by blast

subsection \<open>Similarity\<close>

lemma stringSimilarity_eq_formula:
  "stringSimilarity a b = (if a = [] \<and> b = [] then Num 1 else similarity_formula a b)"
proof (cases "a = b")
  case True
  then show ?thesis
    by (cases "b = []") (simp_all add: stringSimilarity_def similarity_formula_def js_div_def)
next
  case False
  note ne = this
  show ?thesis
  proof (cases "a = [] \<or> b = []")
    case True
    with ne show ?thesis
      by (auto simp: stringSimilarity_def similarity_formula_def js_div_def)
  next
    case False
    with ne show ?thesis
      by (auto simp: stringSimilarity_def similarity_formula_def Let_def
                     levenshteinDistance_classic)
  qed
qed

text \<open>
  C4, as the specification states it: \<open>stringSimilarity(a, b)\<close> equals
  \<open>(longer.length - distance(longer, shorter)) / longer.length\<close> for all strings. For two
  empty strings the quotient is \<open>0 / 0\<close>, which is \<open>NaN\<close>, while the code returns 1
  from its first test \<open>a === b\<close>.
\<close>

theorem stringSimilarity_empty_counterexample:
  "stringSimilarity [] [] = Num 1 \<and> similarity_formula [] [] = NaN \<and>
   stringSimilarity [] [] \<noteq> similarity_formula [] []"
  by (simp add: stringSimilarity_def similarity_formula_def js_div_def)

text \<open>
  C4, amended: \<open>stringSimilarity(a, b)\<close> is 1 for two empty strings and otherwise equals
  \<open>(longer.length - distance(longer, shorter)) / longer.length\<close>, where the distance
  computed by \<open>levenshteinDistance\<close> is the classic edit distance with insertion,
  deletion and substitution at cost 1 each. The distance between "kitten" and "sitting"
  is 3 and their similarity 4/7, which lies between 0.571 and 0.572; the similarity of
  "abc" with itself is 1.
\<close>

theorem stringSimilarity_formula:
  "stringSimilarity a b = (if a = [] \<and> b = [] then Num 1 else similarity_formula a b) \<and>
   levenshteinDistance a b = Some (levenshtein_classic a b) \<and>
   levenshteinDistance ''kitten'' ''sitting'' = Some 3 \<and>
   stringSimilarity ''kitten'' ''sitting'' = Num (4 / 7) \<and>
   js_gt (stringSimilarity ''kitten'' ''sitting'') (Num (571 / 1000)) \<and>
   js_gt (Num (572 / 1000)) (stringSimilarity ''kitten'' ''sitting'') \<and>
   stringSimilarity ''abc'' ''abc'' = Num 1"
proof -
  have k: "levenshteinDistance ''kitten'' ''sitting'' = Some 3"
    by code_simp
  have s: "stringSimilarity ''kitten'' ''sitting'' = Num (4 / 7)"
    by code_simp
  have r: "stringSimilarity ''abc'' ''abc'' = Num 1"
    by (simp add: stringSimilarity_def)
  show ?thesis
    unfolding s using k r stringSimilarity_eq_formula levenshteinDistance_classic by simp
qed

section \<open>Properties of the normalizer\<close>

lemma is_space_lower_char: "is_space c \<Longrightarrow> lower_char c = c"
  by (auto simp: is_space_def lower_char_def)

lemma toLowerCase_spaces: "list_all is_space s \<Longrightarrow> toLowerCase s = s"
  by (induction s) (simp_all add: toLowerCase_def is_space_lower_char)

lemma trim_spaces: "list_all is_space s \<Longrightarrow> trim s = []"
proof -
  assume "list_all is_space s"
  then have d: "dropWhile is_space s = []"
    by (simp add: list_all_iff)
  show ?thesis unfolding trim_def d by simp
qed

lemma normalizeLocation_spaces:
  "s \<noteq> [] \<Longrightarrow> list_all is_space s \<Longrightarrow> normalizeLocation (Some s) = LStr []"
  by (simp add: normalizeLocation_def truthy_def toLowerCase_spaces trim_spaces
                locationMappings_def inherited_names_def)

lemma set_set_order [simp]: "set (set_order xs) = set xs"
  by (simp add: set_order_def)

lemma location_options_drop:
  "\<not> locval_truthy (location_normalized p) \<Longrightarrow>
   map_option locations (getFilterOptions (Some (xs @ p # ys)))
   = map_option locations (getFilterOptions (Some (xs @ ys)))"
  by (simp add: getFilterOptions_def)

lemma location_options_truthy:
  "getFilterOptions (Some members) = Some opts \<Longrightarrow> l \<in> set (locations opts) \<Longrightarrow>
   locval_truthy l"
  by (auto simp: getFilterOptions_def)

text \<open>
  C7: normalization is a total function and degrades missing fields instead of failing.
  A raw record with no optional field becomes a profile with empty text fields, empty tag
  and keyword lists, the normalized location \<open>null\<close> and \<open>has_social_links\<close> false; and
  both "SF " and "Bay Area" are normalized to "san francisco".
\<close>

theorem normalize_bare_record:
  "processData [bare_member u]
   = [\<lparr> name = [], username = u, location = [], professional_summary = [],
        personal_summary = [], philosophical_summary = [], tags = [],
        professional_keywords = [], location_normalized = LNull, has_location = False,
        has_professional_summary = False, has_personal_summary = False,
        has_social_links = False, searchable_text = toLowerCase u,
        social_links = \<lparr> twitter = None, linkedin = None, discord = None \<rparr>,
        x_url = None, linkedin_url = None, discord_handle = None, post_date = None,
        profile_image = None, original_text = None \<rparr>] \<and>
   normalizeLocation None = LNull \<and>
   normalizeLocation (Some ''SF '') = LStr ''san francisco'' \<and>
   normalizeLocation (Some ''Bay Area'') = LStr ''san francisco''"
proof -
  have sf: "normalizeLocation (Some ''SF '') = LStr ''san francisco''"
    by code_simp
  have bay: "normalizeLocation (Some ''Bay Area'') = LStr ''san francisco''"
    by code_simp
  show ?thesis
    unfolding sf bay
    by (simp add: processData_def processMember_def bare_member_def cleanText_def truthy_def
              extractKeywords_def normalizeLocation_def createSearchableText_def
              processSocialLinks_def toLowerCase_def)
qed

text \<open>
  C10: for a raw member whose location is a non-empty string of white space only, the
  normalized location is the empty string, not \<open>null\<close>, and \<open>has_location\<close> is true;
  the member adds nothing to the locations of the filter options, which never contain
  the empty string.
\<close>

theorem whitespace_location:
  assumes "raw_location m = Some ws" and "ws \<noteq> []" and "list_all is_space ws"
  shows "location_normalized (processMember m) = LStr [] \<and>
         has_location (processMember m) \<and>
         map_option locations (getFilterOptions (Some (processData (xs @ m # ys))))
           = map_option locations (getFilterOptions (Some (processData (xs @ ys)))) \<and>
         (\<forall>opts. getFilterOptions (Some (processData (xs @ m # ys))) = Some opts
                  \<longrightarrow> LStr [] \<notin> set (locations opts))"
proof -
  have ln: "location_normalized (processMember m) = LStr []"
    using assms by (simp add: processMember_def normalizeLocation_spaces)
  have hl: "has_location (processMember m)"
    using assms by (simp add: processMember_def truthy_def)
  have "\<not> locval_truthy (location_normalized (processMember m))"
    by (simp add: ln locval_truthy_def)
  then have dr: "map_option locations (getFilterOptions (Some (processData (xs @ m # ys))))
           = map_option locations (getFilterOptions (Some (processData (xs @ ys))))"
    using location_options_drop [of "processMember m" "processData xs" "processData ys"]
    by (simp add: processData_def)
  have "\<forall>opts. getFilterOptions (Some (processData (xs @ m # ys))) = Some opts
                  \<longrightarrow> LStr [] \<notin> set (locations opts)"
    using location_options_truthy by (fastforce simp: locval_truthy_def)
  then show ?thesis using ln hl dr by blast
qed

text \<open>
  C10 on the member whose location is two spaces: next to a member from Paris, the
  locations of the filter options are Paris alone.
\<close>

theorem whitespace_location_witness:
  "location_normalized (processMember dan) = LStr [] \<and>
   has_location (processMember dan) \<and>
   map_option locations (getFilterOptions (Some (processData [ann, dan])))
     = Some [LStr ''paris'']"
proof -
  have a: "raw_location dan = Some ''  ''" by (simp add: dan_def bare_member_def)
  have b: "''  '' \<noteq> []" by simp
  have c: "list_all is_space ''  ''" by (simp add: is_space_def)
  have d: "map_option locations (getFilterOptions (Some (processData [ann])))
     = Some [LStr ''paris'']" by code_simp
  show ?thesis
    using whitespace_location [OF a b c, of "[ann]" "[]"] d by simp
qed

section \<open>Similar members\<close>

lemma set_js_insort [simp]: "set (js_insort cmp x ys) = insert x (set ys)"
  by (induction ys) auto

lemma set_js_sort [simp]: "set (js_sort cmp xs) = set xs"
  by (induction xs) (simp_all add: js_sort_def)

lemma length_js_insort [simp]: "length (js_insort cmp x ys) = Suc (length ys)"
  by (induction ys) auto

lemma length_js_sort [simp]: "length (js_sort cmp xs) = length xs"
  by (induction xs) (simp_all add: js_sort_def)

lemma findSimilarMembers_excludes_target:
  "r \<in> set (findSimilarMembers e (Some target) count) \<Longrightarrow>
   username (entry r) \<noteq> username target"
  by (auto simp: findSimilarMembers_def plain_def split: option.splits dest!: in_set_takeD)

lemma findSimilarMembers_length: "length (findSimilarMembers e target count) \<le> count"
  by (simp add: findSimilarMembers_def split: option.splits)

lemma js_insort_sorted:
  assumes "\<forall>r\<in>insert x (set ys). is_finite (num_of (similarityScore r))"
    and "sorted_wrt (\<lambda>a b. js_ge (num_of (similarityScore a)) (num_of (similarityScore b))) ys"
  shows "sorted_wrt (\<lambda>a b. js_ge (num_of (similarityScore a)) (num_of (similarityScore b)))
           (js_insort by_similarity_desc x ys)"
  using assms
proof (induction ys)
  case Nil
  then show ?case by simp
next
  case (Cons y ys)
  obtain qx where qx: "num_of (similarityScore x) = Num qx"
    using Cons.prems(1) by (cases "num_of (similarityScore x)") (auto simp: is_finite_def)
  obtain qy where qy: "num_of (similarityScore y) = Num qy"
    using Cons.prems(1) by (cases "num_of (similarityScore y)") (auto simp: is_finite_def)
  have fin: "\<And>z. z \<in> set ys \<Longrightarrow> \<exists>q. num_of (similarityScore z) = Num q"
  proof -
    fix z assume "z \<in> set ys"
    then have "is_finite (num_of (similarityScore z))" using Cons.prems(1) by simp
    then show "\<exists>q. num_of (similarityScore z) = Num q"
      by (cases "num_of (similarityScore z)") (auto simp: is_finite_def)
  qed
  have pos: "cmp_pos (by_similarity_desc x y) = (qx < qy)"
    by (simp add: cmp_pos_def by_similarity_desc_def js_sub_def qx qy)
  show ?case
  proof (cases "qx < qy")
    case True
    have "sorted_wrt (\<lambda>a b. js_ge (num_of (similarityScore a)) (num_of (similarityScore b)))
            (js_insort by_similarity_desc x ys)"
      using Cons by simp
    then show ?thesis using True pos Cons.prems(2) qx qy
      by (auto simp: js_ge_def)
  next
    case False
    have "\<And>z. z \<in> set ys \<Longrightarrow> js_ge (num_of (similarityScore x)) (num_of (similarityScore z))"
    proof -
      fix z assume z: "z \<in> set ys"
      then obtain q where q: "num_of (similarityScore z) = Num q" using fin by blast
      have "js_ge (num_of (similarityScore y)) (num_of (similarityScore z))"
        using Cons.prems(2) z by simp
      then show "js_ge (num_of (similarityScore x)) (num_of (similarityScore z))"
        using False by (auto simp: js_ge_def qx qy q)
    qed
    then show ?thesis using False pos Cons.prems(2) qx qy
      by (auto simp: js_ge_def)
  qed
qed

lemma js_sort_sorted:
  "\<forall>r\<in>set xs. is_finite (num_of (similarityScore r)) \<Longrightarrow>
   sorted_wrt (\<lambda>a b. js_ge (num_of (similarityScore a)) (num_of (similarityScore b)))
     (js_sort by_similarity_desc xs)"
proof (induction xs)
  case Nil
  show ?case by (simp add: js_sort_def)
next
  case (Cons x xs)
  then have "sorted_wrt (\<lambda>a b. js_ge (num_of (similarityScore a)) (num_of (similarityScore b)))
     (js_sort by_similarity_desc xs)" by simp
  moreover have "\<forall>r\<in>insert x (set (js_sort by_similarity_desc xs)).
      is_finite (num_of (similarityScore r))"
    using Cons.prems by simp
  ultimately have "sorted_wrt (\<lambda>a b. js_ge (num_of (similarityScore a)) (num_of (similarityScore b)))
     (js_insort by_similarity_desc x (js_sort by_similarity_desc xs))"
    by (rule js_insort_sorted [rotated])
  then show ?case by (simp add: js_sort_def)
qed

lemma calculateProfileSimilarity_finite:
  "tags p \<noteq> [] \<or> tags q \<noteq> [] \<Longrightarrow>
   professional_keywords p \<noteq> [] \<or> professional_keywords q \<noteq> [] \<Longrightarrow>
   is_finite (calculateProfileSimilarity p q)"
  by (auto simp: calculateProfileSimilarity_def Let_def js_div_def is_finite_def)

lemma calculateProfileSimilarity_value:
  "tags p \<noteq> [] \<or> tags q \<noteq> [] \<Longrightarrow>
   professional_keywords p \<noteq> [] \<or> professional_keywords q \<noteq> [] \<Longrightarrow>
   calculateProfileSimilarity p q =
     Num ((if location_normalized p = location_normalized q then 3 / 10 else 0)
          + 4 / 10 * (of_nat (length (filter (\<lambda>tag. list_ex (\<lambda>tag2. toLowerCase tag2 = toLowerCase tag) (tags q)) (tags p)))
                      / of_nat (max (length (tags p)) (length (tags q))))
          + 1 / 10 * (of_nat (length (filter (\<lambda>k. k \<in> set (professional_keywords q)) (professional_keywords p)))
                      / of_nat (max (length (professional_keywords p)) (length (professional_keywords q)))))"
  by (auto simp: calculateProfileSimilarity_def Let_def js_div_def)

lemma findSimilarMembers_sorted:
  assumes "tags target \<noteq> []" "professional_keywords target \<noteq> []"
  shows "sorted_wrt (\<lambda>a b. js_ge (num_of (similarityScore a)) (num_of (similarityScore b)))
           (findSimilarMembers e (Some target) count)"
proof (cases "processedData e")
  case None
  then show ?thesis by (simp add: findSimilarMembers_def)
next
  case (Some members)
  let ?xs = "map (\<lambda>member. (plain member)
                       \<lparr> similarityScore := Some (calculateProfileSimilarity target member) \<rparr>)
                    (filter (\<lambda>member. username member \<noteq> username target) members)"
  have "\<forall>r\<in>set ?xs. is_finite (num_of (similarityScore r))"
    using assms by (auto simp: num_of_def calculateProfileSimilarity_finite)
  then have "sorted_wrt (\<lambda>a b. js_ge (num_of (similarityScore a)) (num_of (similarityScore b)))
     (js_sort by_similarity_desc ?xs)"
    by (rule js_sort_sorted)
  then show ?thesis
    using Some by (simp add: findSimilarMembers_def sorted_wrt_take)
qed

lemma calculateProfileSimilarity_no_tags:
  "tags p = [] \<Longrightarrow> tags q = [] \<Longrightarrow> calculateProfileSimilarity p q = NaN"
  by (cases "js_div (int (length (filter (\<lambda>keyword. keyword \<in> set (professional_keywords q)) (professional_keywords p)))) 
            (int (max (length (professional_keywords p)) (length (professional_keywords q))))")
     (simp_all add: calculateProfileSimilarity_def Let_def js_div_def)

text \<open>
  C1 at two processed members without tags: the tag term of the score is \<open>0 / 0\<close>, and
  the score is \<open>NaN\<close>. With a tag on either side and a keyword on either side the
  score is the weighted sum of the specification (\<open>calculateProfileSimilarity_value\<close>).
\<close>

theorem similarity_nan_without_tags:
  "tags (processMember tom) = [] \<and> tags (processMember bob) = [] \<and>
   calculateProfileSimilarity (processMember tom) (processMember bob) = NaN"
  by (simp add: calculateProfileSimilarity_no_tags processMember_def bob_def tom_def
                bare_member_def)

text \<open>
  C6 at a target without tags among three other members: the member without tags has the
  score \<open>NaN\<close>, every comparison with it gives \<open>NaN\<close>, and the result lists the score
  0 before the score 1/3. The result never holds the target and has at most \<open>count\<close>
  entries (\<open>findSimilarMembers_excludes_target\<close>, \<open>findSimilarMembers_length\<close>), and
  it is in descending order when the target has a tag and a keyword
  (\<open>findSimilarMembers_sorted\<close>).
\<close>

theorem similar_members_not_sorted:
  "map (\<lambda>r. (username (entry r), similarityScore r))
       (findSimilarMembers example_engine (Some (processMember tom)) 10)
   = [(''ann'', Some (Num 0)), (''bob'', Some NaN), (''cat'', Some (Num (1 / 3)))] \<and>
   \<not> sorted_wrt (\<lambda>a b. js_ge (num_of (similarityScore a)) (num_of (similarityScore b)))
         (findSimilarMembers example_engine (Some (processMember tom)) 10)"
  by code_simp

section \<open>Text search and relevance\<close>


lemma lower_char_idem [simp]: "lower_char (lower_char c) = lower_char c"
  by (auto simp: lower_char_def Let_def)

lemma toLowerCase_idem [simp]: "toLowerCase (toLowerCase s) = toLowerCase s"
  by (simp add: toLowerCase_def)

lemma toLowerCase_Nil_iff [simp]: "(toLowerCase s = []) = (s = [])"
  by (simp add: toLowerCase_def)


lemma split_on_nonempty [simp]: "split_on c s \<noteq> []"
  by (induction s) (simp_all add: Let_def)

lemma split_on_chars: "w \<in> set (split_on c s) \<Longrightarrow> set w \<subseteq> set s"
proof (induction s arbitrary: w)
  case Nil
  then show ?case by simp
next
  case (Cons x xs)
  show ?case
  proof (cases "x = c")
    case True
    then show ?thesis using Cons by auto
  next
    case False
    obtain h t where ht: "split_on c xs = h # t"
      by (cases "split_on c xs") simp_all
    then have "w = x # h \<or> w \<in> set t" using Cons.prems False by simp
    then show ?thesis
    proof
      assume "w = x # h"
      then show ?thesis using Cons.IH [of h] ht by auto
    next
      assume "w \<in> set t"
      then show ?thesis using Cons.IH [of w] ht by auto
    qed
  qed
qed

lemma search_terms_lower: "t \<in> set (search_terms text) \<Longrightarrow> toLowerCase t = t"
proof -
  assume "t \<in> set (search_terms text)"
  then have "set t \<subseteq> set (toLowerCase text)"
    by (auto simp: search_terms_def dest: split_on_chars)
  then have "\<forall>c\<in>set t. lower_char c = c"
    by (auto simp: toLowerCase_def)
  then show ?thesis
    by (simp add: toLowerCase_def map_idI)
qed

lemma search_terms_nonempty: "t \<in> set (search_terms text) \<Longrightarrow> t \<noteq> []"
  by (auto simp: search_terms_def)

lemma guarded_includes:
  "t \<noteq> [] \<Longrightarrow> (s \<noteq> [] \<and> js_includes (toLowerCase s) t) = js_includes (toLowerCase s) t"
  by (cases s) (simp_all add: toLowerCase_def)

lemma relevance_step_spec:
  "t \<noteq> [] \<Longrightarrow> toLowerCase t = t \<Longrightarrow>
   relevance_step p t score = score + relevance_of_term p t"
  by (simp add: relevance_step_def relevance_of_term_def ci_contains_def Let_def
                guarded_includes)

lemma fold_relevance:
  "\<forall>t\<in>set ts. t \<noteq> [] \<and> toLowerCase t = t \<Longrightarrow>
   fold (relevance_step p) ts acc = acc + relevance_spec p ts"
  by (induction ts arbitrary: acc) (simp_all add: relevance_spec_def relevance_step_spec)

lemma calculateRelevanceScore_spec:
  "calculateRelevanceScore p (search_terms text) = relevance_spec p (search_terms text)"
  unfolding calculateRelevanceScore_def
  using fold_relevance [of "search_terms text" p 0] search_terms_lower search_terms_nonempty
  by auto













lemma similarity_formula_code: "a \<noteq> [] \<Longrightarrow> similarity_formula a b = stringSimilarity a b"
  by (simp add: stringSimilarity_eq_formula)

lemma fuzzy_word:
  "(if length w < 3 then False else js_gt (stringSimilarity w t) c)
   = (3 \<le> length w \<and> js_gt (similarity_formula w t) c)"
  by (cases "w = []") (auto simp: similarity_formula_code)

lemma fuzzyMatch_spec:
  "fuzzyMatch st term =
     (4 \<le> length term
      \<and> list_ex (\<lambda>w. 3 \<le> length w \<and> js_gt (similarity_formula w term) (Num (7 / 10)))
                 (split_on (CHR '' '') st))"
  by (auto simp: fuzzyMatch_def fuzzy_word)

lemma term_passes_code:
  "term_passes (split_on (CHR '' '') st) st = (\<lambda>term. js_includes st term \<or> fuzzyMatch st term)"
  by (rule ext) (simp add: term_passes_def fuzzyMatch_spec)

lemma applyTextSearch_entries:
  "map entry (applyTextSearch data text)
   = filter (\<lambda>p. trim text = [] \<or> passes_text text (searchable_text p)) (map entry data)"
proof (cases "trim text = []")
  case True
  then show ?thesis by (simp add: applyTextSearch_def)
next
  case False
  then show ?thesis
    by (simp add: applyTextSearch_def Let_def passes_text_def term_passes_code
                  filter_map comp_def)
qed

lemma term_passes_ws_code:
  "term_passes ws st =
     (\<lambda>term. js_includes st term
      \<or> (4 \<le> length term
          \<and> list_ex (\<lambda>w. if length w < 3 then False
                          else js_gt (stringSimilarity w term) (Num (7 / 10))) ws))"
  by (rule ext) (simp add: term_passes_def fuzzy_word)




text \<open>
  C3, as the specification states it, with terms and words delimited by white space. A
  member whose summary is "Senior", a line feed, "developer" passes the search for
  "develper" by the word "developer", yet the code returns nothing: it splits at the
  space character only and compares the term with the word "senior", line feed,
  "developer". A member named "Sam Smith" passes the search for "sam", a tab, "smith" with
  its two terms, yet the code returns nothing: its only term is the whole text.
\<close>

theorem text_filter_whitespace_counterexample:
  "passes_text_spec ''develper'' (searchable_text (processMember eve)) \<and>
   applyTextSearch [plain (processMember eve)] ''develper'' = [] \<and>
   passes_text_spec tab_text (searchable_text (processMember sam)) \<and>
   applyTextSearch [plain (processMember sam)] tab_text = []"
proof -
  have 1: "passes_text_spec ''develper'' (searchable_text (processMember eve))"
    unfolding passes_text_spec_def term_passes_ws_code by code_simp
  have 2: "applyTextSearch [plain (processMember eve)] ''develper'' = []"
    by code_simp
  have 3: "passes_text_spec tab_text (searchable_text (processMember sam))"
    unfolding passes_text_spec_def term_passes_ws_code by code_simp
  have 4: "applyTextSearch [plain (processMember sam)] tab_text = []"
    by code_simp
  show ?thesis using 1 2 3 4 by blast
qed

text \<open>
  C3, amended: when the search text holds a code unit that is not white space, it is put
  in lower case and split at each space character into terms, empty terms discarded; a
  member passes if and only if every term is a substring of its searchable text or has at
  least 4 code units and is more than 0.7 similar, by the edit-distance similarity, to a
  piece of at least 3 code units of the searchable text split at each space character.
  When the search text is empty or white space only, every member passes. The members
  that pass keep their order.
\<close>

theorem text_filter_by_spaces:
  "applyTextSearch data query =
     (if trim query = [] then data
      else map (\<lambda>m. m \<lparr> relevanceScore :=
                         Some (relevance_spec (entry m) (search_terms query)) \<rparr>)
               (filter (\<lambda>m. passes_text query (searchable_text (entry m))) data)) \<and>
   map entry (applyTextSearch data query)
     = filter (\<lambda>p. trim query = [] \<or> passes_text query (searchable_text p)) (map entry data)"
proof (cases "trim query = []")
  case True
  then show ?thesis by (simp add: applyTextSearch_def)
next
  case False
  have "applyTextSearch data query
      = map (\<lambda>m. m \<lparr> relevanceScore :=
                         Some (relevance_spec (entry m) (search_terms query)) \<rparr>)
            (filter (\<lambda>m. passes_text query (searchable_text (entry m))) data)"
    using False
    by (simp add: applyTextSearch_def Let_def passes_text_def term_passes_code
                  calculateRelevanceScore_spec)
  moreover have "map entry (applyTextSearch data query)
      = filter (\<lambda>p. passes_text query (searchable_text p)) (map entry data)"
    using False
    by (simp add: applyTextSearch_def Let_def passes_text_def term_passes_code
                  filter_map comp_def)
  ultimately show ?thesis using False by simp
qed

section \<open>Search with filters\<close>

lemma entries_plain [simp]: "map entry (map plain d) = d"
  by (simp add: plain_def comp_def)

lemma ci_contains_guard:
  "t \<noteq> [] \<Longrightarrow> (s \<noteq> [] \<and> js_includes (toLowerCase s) (toLowerCase t)) = ci_contains s t"
  by (cases s) (simp_all add: ci_contains_def toLowerCase_def)

lemma text_stage:
  "map entry (if f_search af \<noteq> [] then applyTextSearch r (f_search af) else r)
   = filter (\<lambda>p. trim (f_search af) = [] \<or> passes_text (f_search af) (searchable_text p))
            (map entry r)"
  by (simp add: applyTextSearch_entries trim_def)

lemma location_stage:
  "map entry (if f_location af \<noteq> [] then filter (location_matches af) r else r)
   = filter (\<lambda>p. f_location af = [] \<or> location_normalized p = LStr (f_location af))
            (map entry r)"
  by (simp add: filter_map comp_def location_matches_def [abs_def])

lemma profession_stage:
  "map entry (if f_profession af \<noteq> [] then filter (profession_matches af) r else r)
   = filter (\<lambda>p. f_profession af = [] \<or> ci_contains (professional_summary p) (f_profession af))
            (map entry r)"
  by (simp add: filter_map comp_def profession_matches_def [abs_def] ci_contains_guard)

lemma tags_stage:
  "map entry (if length (f_tags af) > 0 then filter (tags_match af) r else r)
   = filter (\<lambda>p. f_tags af = []
                  \<or> list_ex (\<lambda>tag. list_ex (\<lambda>memberTag. ci_contains memberTag tag) (tags p))
                             (f_tags af))
            (map entry r)"
  by (simp add: filter_map comp_def tags_match_def [abs_def] ci_contains_def)

lemma run_filters_entries: "map entry (run_filters af d) = filter (accepts af) d"
proof -
  have "map entry (run_filters af d)
    = filter (\<lambda>p. f_tags af = []
                  \<or> list_ex (\<lambda>tag. list_ex (\<lambda>memberTag. ci_contains memberTag tag) (tags p))
                             (f_tags af))
       (filter (\<lambda>p. f_profession af = [] \<or> ci_contains (professional_summary p) (f_profession af))
         (filter (\<lambda>p. f_location af = [] \<or> location_normalized p = LStr (f_location af))
           (filter (\<lambda>p. trim (f_search af) = [] \<or> passes_text (f_search af) (searchable_text p))
              d)))"
    unfolding run_filters_def Let_def
    by (simp only: tags_stage profession_stage location_stage text_stage entries_plain)
  also have "\<dots> = filter (accepts af) d"
    by (auto simp: accepts_def intro!: filter_cong)
  finally show ?thesis .
qed

lemma usernames_run_filters:
  "usernames (run_filters af d) = map username (filter (accepts af) d)"
proof -
  have "usernames (run_filters af d) = map username (map entry (run_filters af d))"
    by (simp add: usernames_def comp_def)
  then show ?thesis by (simp only: run_filters_entries)
qed

lemma accepts_cleared [simp]: "accepts cleared_filters p"
  by (simp add: accepts_def cleared_filters_def trim_def)

lemma merge_empty [simp]: "merge_filters af empty_spec = af"
  by (simp add: merge_filters_def empty_spec_def)

lemma merge_twice [simp]: "merge_filters (merge_filters af spec) spec = merge_filters af spec"
  by (simp add: merge_filters_def split: option.splits)

lemma run_filters_cleared [simp]: "run_filters cleared_filters d = map plain d"
  by (simp add: run_filters_def cleared_filters_def)

lemma accepts_mono:
  assumes pm: "populates_more f g" and ag: "accepts g p"
  shows "accepts f p"
proof -
  have s: "trim (f_search f) = [] \<or> passes_text (f_search f) (searchable_text p)"
  proof (cases "f_search f = []")
    case True
    then show ?thesis by (simp add: trim_def)
  next
    case False
    then have "f_search g = f_search f" using pm by (simp add: populates_more_def)
    then show ?thesis using ag by (simp add: accepts_def)
  qed
  have l: "f_location f = [] \<or> location_normalized p = LStr (f_location f)"
  proof (cases "f_location f = []")
    case True
    then show ?thesis by simp
  next
    case False
    then have "f_location g = f_location f" using pm by (simp add: populates_more_def)
    then show ?thesis using ag False by (simp add: accepts_def)
  qed
  have q: "f_profession f = [] \<or> ci_contains (professional_summary p) (f_profession f)"
  proof (cases "f_profession f = []")
    case True
    then show ?thesis by simp
  next
    case False
    then have "f_profession g = f_profession f" using pm by (simp add: populates_more_def)
    then show ?thesis using ag False by (simp add: accepts_def)
  qed
  have t: "f_tags f = []
      \<or> list_ex (\<lambda>tag. list_ex (\<lambda>memberTag. ci_contains memberTag tag) (tags p)) (f_tags f)"
  proof (cases "f_tags f = []")
    case True
    then show ?thesis by simp
  next
    case False
    then have "f_tags g = f_tags f" using pm by (simp add: populates_more_def)
    then show ?thesis using ag False by (simp add: accepts_def)
  qed
  show ?thesis unfolding accepts_def using s l q t by blast
qed

lemma subseq_filter_mono:
  assumes "\<And>x. P x \<Longrightarrow> Q x"
  shows "subseq (map f (filter P xs)) (map f (filter Q xs))"
proof -
  have "filter P xs = filter P (filter Q xs)"
    using assms by (auto intro!: filter_cong)
  then show ?thesis
    by (metis subseq_filter_left subseq_map)
qed

lemma run_filters_mono:
  "populates_more f g \<Longrightarrow> subseq (usernames (run_filters g d)) (usernames (run_filters f d))"
  unfolding usernames_run_filters
  by (rule subseq_filter_mono) (rule accepts_mono)

lemma search_results:
  "fst (search e spec) =
     (case processedData e of None \<Rightarrow> []
      | Some d \<Rightarrow> run_filters (merge_filters (activeFilters e) spec) d)"
  by (simp add: search_def Let_def split: option.splits)

lemma search_subseq_all:
  "subseq (usernames (fst (search e spec)))
          (usernames (fst (search (e \<lparr> activeFilters := cleared_filters \<rparr>) empty_spec)))"
proof (cases "processedData e")
  case None
  then show ?thesis by (simp add: search_results usernames_def)
next
  case (Some d)
  have "subseq (map username (filter (accepts (merge_filters (activeFilters e) spec)) d))
               (map username d)"
    by (metis subseq_filter_left subseq_map)
  then show ?thesis
    using Some by (simp add: search_results usernames_run_filters) (simp add: usernames_def plain_def comp_def)
qed

lemma search_twice: "search (snd (search e spec)) spec = search e spec"
  by (cases "processedData e") (simp_all add: search_def Let_def)

lemma search_then_empty:
  "fst (search (snd (search e spec)) empty_spec) = fst (search e spec)"
  by (cases "processedData e") (simp_all add: search_def Let_def)

lemma search_mono:
  "populates_more (activeFilters e) (merge_filters (activeFilters e) spec) \<Longrightarrow>
   subseq (usernames (fst (search e spec))) (usernames (fst (search e empty_spec)))"
proof (cases "processedData e")
  case None
  then show ?thesis by (simp add: search_results usernames_def)
next
  case (Some d)
  assume "populates_more (activeFilters e) (merge_filters (activeFilters e) spec)"
  then show ?thesis using Some by (simp add: search_results run_filters_mono)
qed

lemma clear_then_search:
  "processedData e = Some d \<Longrightarrow>
   fst (clearFilters e) = map plain d \<and>
   fst (search (snd (clearFilters e)) empty_spec) = map plain d"
  by (simp add: clearFilters_def search_def Let_def)

text \<open>
  C2, as the specification states it, with \<open>search(spec)\<close> and \<open>search({})\<close> on the
  same engine. \<open>search\<close> merges its argument into the filters the engine holds, so on
  the engine that the search for "founder" has left, \<open>search({})\<close> searches for
  "founder" again and returns Cat and Tom, while the search for "ann" returns Ann.
\<close>

theorem search_same_engine_counterexample:
  "usernames (fst (search founder_engine ann_search)) = [''ann''] \<and>
   usernames (fst (search founder_engine empty_spec)) = [''cat'', ''tom''] \<and>
   \<not> set (usernames (fst (search founder_engine ann_search)))
       \<subseteq> set (usernames (fst (search founder_engine empty_spec)))"
proof -
  have a: "usernames (fst (search founder_engine ann_search)) = [''ann'']"
    by code_simp
  have b: "usernames (fst (search founder_engine empty_spec)) = [''cat'', ''tom'']"
    by code_simp
  show ?thesis unfolding a b by simp
qed

text \<open>
  C2, amended. For every engine state and every filter specification: the usernames of
  \<open>search(spec)\<close> are a subsequence, hence a subset, of those of the search without
  any filter, which is \<open>search({})\<close> from the cleared state; the same call repeated
  returns the identical list and leaves the same state, as does \<open>search({})\<close> right
  after it; a specification that only populates fields which are empty in the held
  filters narrows the result of \<open>search({})\<close> on the same engine, and the result
  cannot grow; and after \<open>clearFilters\<close>, which returns the full collection in its
  original order, an empty specification returns it again.
\<close>

theorem search_narrows:
  "subseq (usernames (fst (search e spec)))
          (usernames (fst (search (e \<lparr> activeFilters := cleared_filters \<rparr>) empty_spec))) \<and>
   set (usernames (fst (search e spec)))
     \<subseteq> set (usernames (fst (search (e \<lparr> activeFilters := cleared_filters \<rparr>) empty_spec))) \<and>
   search (snd (search e spec)) spec = search e spec \<and>
   fst (search (snd (search e spec)) empty_spec) = fst (search e spec) \<and>
   (populates_more (activeFilters e) (merge_filters (activeFilters e) spec)
      \<longrightarrow> subseq (usernames (fst (search e spec))) (usernames (fst (search e empty_spec)))
          \<and> length (fst (search e spec)) \<le> length (fst (search e empty_spec))) \<and>
   (processedData e = Some d
      \<longrightarrow> fst (clearFilters e) = map plain d
          \<and> fst (search (snd (clearFilters e)) empty_spec) = map plain d)"
proof -
  have sub: "subseq (usernames (fst (search e spec)))
          (usernames (fst (search (e \<lparr> activeFilters := cleared_filters \<rparr>) empty_spec)))"
    by (rule search_subseq_all)
  then have "set (usernames (fst (search e spec)))
     \<subseteq> set (usernames (fst (search (e \<lparr> activeFilters := cleared_filters \<rparr>) empty_spec)))"
    by (auto dest: list_emb_set)
  moreover have "length (fst (search e spec)) \<le> length (fst (search e empty_spec))"
    if "populates_more (activeFilters e) (merge_filters (activeFilters e) spec)"
  proof -
    have "length (usernames (fst (search e spec))) \<le> length (usernames (fst (search e empty_spec)))"
      using search_mono [OF that] by (rule list_emb_length)
    then show ?thesis by (simp add: usernames_def)
  qed
  ultimately show ?thesis
    using sub search_twice search_then_empty search_mono clear_then_search by blast
qed

text \<open>
  C2 on the example collection: on the fresh engine the search for "founder" populates
  one field more; it returns two of the four members, in their order.
\<close>

theorem search_narrows_witness:
  "populates_more (activeFilters example_engine)
                  (merge_filters (activeFilters example_engine) founder_search) \<and>
   processedData example_engine = Some (processData [ann, bob, cat, tom]) \<and>
   usernames (fst (search example_engine founder_search)) = [''cat'', ''tom''] \<and>
   usernames (fst (search example_engine empty_spec)) = [''ann'', ''bob'', ''cat'', ''tom''] \<and>
   subseq (usernames (fst (search example_engine founder_search)))
          (usernames (fst (search example_engine empty_spec))) \<and>
   length (fst (search example_engine founder_search))
     \<le> length (fst (search example_engine empty_spec)) \<and>
   fst (clearFilters example_engine) = map plain (processData [ann, bob, cat, tom]) \<and>
   fst (search (snd (clearFilters example_engine)) empty_spec)
     = map plain (processData [ann, bob, cat, tom])"
proof -
  have p: "populates_more (activeFilters example_engine)
                  (merge_filters (activeFilters example_engine) founder_search)"
    by (simp add: populates_more_def example_engine_def initial_filters_def)
  have d: "processedData example_engine = Some (processData [ann, bob, cat, tom])"
    by (simp add: example_engine_def)
  have u1: "usernames (fst (search example_engine founder_search)) = [''cat'', ''tom'']"
    by code_simp
  have u2: "usernames (fst (search example_engine empty_spec)) = [''ann'', ''bob'', ''cat'', ''tom'']"
    by code_simp
  show ?thesis
    using search_narrows [of example_engine founder_search "processData [ann, bob, cat, tom]"]
          p d u1 u2
    by simp
qed

text \<open>
  C9: while no data is loaded, \<open>search\<close>, \<open>findSimilarMembers\<close>, \<open>getTrendingTags\<close> and
  \<open>clearFilters\<close> return the empty list; \<open>search\<close> does not even merge the filters.
\<close>

theorem no_data_empty:
  "search (e \<lparr> processedData := None \<rparr>) spec = ([], e \<lparr> processedData := None \<rparr>) \<and>
   findSimilarMembers (e \<lparr> processedData := None \<rparr>) target count = [] \<and>
   getTrendingTags (e \<lparr> processedData := None \<rparr>) limit = Some [] \<and>
   clearFilters (e \<lparr> processedData := None \<rparr>)
     = ([], e \<lparr> processedData := None, activeFilters := cleared_filters \<rparr>)"
  by (simp add: search_def findSimilarMembers_def getTrendingTags_def clearFilters_def
           split: option.splits)

section \<open>What the operations leave unchanged\<close>

lemma unchanged_refl [simp]: "unchanged h h"
  by (simp add: unchanged_def)

lemma unchanged_trans: "unchanged h h1 \<Longrightarrow> unchanged h1 h2 \<Longrightarrow> unchanged h h2"
  by (auto simp: unchanged_def)

lemma new_array_unchanged: "unchanged h (fst (new_array h rs))"
  by (simp add: new_array_def unchanged_def)

lemma new_array_ref: "snd (new_array h rs) = next_ref h"
  by (simp add: new_array_def)

lemma new_object_unchanged: "unchanged h (fst (new_object h v))"
  by (simp add: new_object_def unchanged_def)

lemma new_objects_props:
  "unchanged h (fst (new_objects h vs)) \<and>
   next_ref (fst (new_objects h vs)) = next_ref h + length vs \<and>
   snd (new_objects h vs) = [next_ref h..<next_ref h + length vs] \<and>
   map (objects (fst (new_objects h vs))) (snd (new_objects h vs)) = vs \<and>
   arrays (fst (new_objects h vs)) = arrays h"
proof (induction vs arbitrary: h)
  case Nil
  show ?case by simp
next
  case (Cons v vs)
  let ?h1 = "fst (new_object h v)"
  have r: "snd (new_object h v) = next_ref h" by (simp add: new_object_def)
  have n1: "next_ref ?h1 = Suc (next_ref h)" by (simp add: new_object_def)
  have o1: "objects ?h1 (next_ref h) = v" by (simp add: new_object_def)
  have a1: "arrays ?h1 = arrays h" by (simp add: new_object_def)
  note ih = Cons.IH [of ?h1]
  have eq: "new_objects h (v # vs)
     = (fst (new_objects ?h1 vs), next_ref h # snd (new_objects ?h1 vs))"
    by (simp add: split_beta r Let_def)
  have u: "unchanged h (fst (new_objects ?h1 vs))"
    using unchanged_trans [OF new_object_unchanged [of h v]] ih by blast
  have keep: "objects (fst (new_objects ?h1 vs)) (next_ref h) = v"
    using ih o1 n1 by (simp add: unchanged_def)
  have upt: "[next_ref h..<next_ref h + length (v # vs)]
      = next_ref h # [next_ref ?h1..<next_ref ?h1 + length vs]"
    unfolding n1 by (simp add: upt_conv_Cons del: upt_Suc)
  have c2: "next_ref (fst (new_objects ?h1 vs)) = next_ref h + length (v # vs)"
    using ih n1 by simp
  have c3: "next_ref h # snd (new_objects ?h1 vs) = [next_ref h..<next_ref h + length (v # vs)]"
    unfolding upt using ih by simp
  have c4: "map (objects (fst (new_objects ?h1 vs))) (next_ref h # snd (new_objects ?h1 vs))
      = v # vs"
  proof -
    have "map (objects (fst (new_objects ?h1 vs))) (snd (new_objects ?h1 vs)) = vs"
      using ih by blast
    then show ?thesis by (simp only: list.map keep)
  qed
  have c5: "arrays (fst (new_objects ?h1 vs)) = arrays h"
    using ih a1 by simp
  show ?case
    unfolding eq fst_conv snd_conv using u c2 c3 c4 c5 by blast
qed

lemma unchanged_view: "unchanged h h' \<Longrightarrow> allocated h a \<Longrightarrow> view h' a = view h a"
  by (auto simp: unchanged_def allocated_def view_def list_all_iff)

lemma js_insort_map:
  "map f (js_insort (\<lambda>x y. cmp (f x) (f y)) r rs) = js_insort cmp (f r) (map f rs)"
  by (induction rs) simp_all

lemma js_sort_map: "map f (js_sort (\<lambda>x y. cmp (f x) (f y)) rs) = js_sort cmp (map f rs)"
  by (induction rs) (simp_all add: js_sort_def js_insort_map)

lemma array_sort_props:
  "view (array_sort h a cmp) a = js_sort cmp (view h a) \<and>
   objects (array_sort h a cmp) = objects h \<and>
   next_ref (array_sort h a cmp) = next_ref h \<and>
   (\<forall>b. b \<noteq> a \<longrightarrow> arrays (array_sort h a cmp) b = arrays h b) \<and>
   (allocated h a \<longrightarrow> allocated (array_sort h a cmp) a)"
  by (simp add: array_sort_def view_def js_sort_map allocated_def list_all_iff set_js_sort)

lemma array_sort_unchanged:
  "unchanged h0 h \<Longrightarrow> next_ref h0 \<le> a \<Longrightarrow> unchanged h0 (array_sort h a cmp)"
  by (auto simp: unchanged_def array_sort_def)

lemma new_array_props:
  "list_all (\<lambda>r. r < next_ref h) rs \<Longrightarrow>
   allocated (fst (new_array h rs)) (snd (new_array h rs)) \<and>
   view (fst (new_array h rs)) (snd (new_array h rs)) = map (objects h) rs"
  by (auto simp: new_array_def allocated_def view_def list_all_iff)

lemma array_copy_props:
  "unchanged h (fst (array_copy h a)) \<and> snd (array_copy h a) = next_ref h \<and>
   (allocated h a \<longrightarrow> allocated (fst (array_copy h a)) (snd (array_copy h a))
       \<and> view (fst (array_copy h a)) (snd (array_copy h a)) = view h a)"
  using new_array_props [of h "arrays h a"]
  by (simp add: array_copy_def new_array_unchanged new_array_ref allocated_def view_def)

lemma array_filter_props:
  "unchanged h (fst (array_filter h a p)) \<and> snd (array_filter h a p) = next_ref h \<and>
   (allocated h a \<longrightarrow> allocated (fst (array_filter h a p)) (snd (array_filter h a p))
       \<and> view (fst (array_filter h a p)) (snd (array_filter h a p)) = filter p (view h a))"
  using new_array_props [of h "filter (\<lambda>r. p (objects h r)) (arrays h a)"]
  by (simp add: array_filter_def new_array_unchanged new_array_ref allocated_def view_def
                filter_map comp_def list_all_iff)

lemma array_slice_props:
  "unchanged h (fst (array_slice h a n)) \<and> snd (array_slice h a n) = next_ref h \<and>
   (allocated h a \<longrightarrow> allocated (fst (array_slice h a n)) (snd (array_slice h a n))
       \<and> view (fst (array_slice h a n)) (snd (array_slice h a n)) = take n (view h a))"
  using new_array_props [of h "take n (arrays h a)"]
  by (auto simp: array_slice_def new_array_unchanged new_array_ref allocated_def view_def
                take_map list_all_iff dest: in_set_takeD)

lemma array_map_new_props:
  "unchanged h (fst (array_map_new h a f)) \<and>
   next_ref h \<le> snd (array_map_new h a f) \<and>
   allocated (fst (array_map_new h a f)) (snd (array_map_new h a f)) \<and>
   view (fst (array_map_new h a f)) (snd (array_map_new h a f)) = map f (view h a)"
proof -
  let ?vs = "map (\<lambda>r. f (objects h r)) (arrays h a)"
  let ?h1 = "fst (new_objects h ?vs)"
  let ?rs = "snd (new_objects h ?vs)"
  note p = new_objects_props [of h ?vs]
  have eq: "array_map_new h a f = new_array ?h1 ?rs"
    by (simp add: array_map_new_def split_beta)
  have al: "list_all (\<lambda>r. r < next_ref ?h1) ?rs"
    using p by (simp add: list_all_iff)
  have u: "unchanged h (fst (new_array ?h1 ?rs))"
    using unchanged_trans [OF _ new_array_unchanged [of ?h1 ?rs]] p by blast
  have n: "next_ref h \<le> snd (new_array ?h1 ?rs)"
    using p by (simp add: new_array_ref)
  have "map (objects ?h1) ?rs = ?vs" using p by blast
  moreover have "view (fst (new_array ?h1 ?rs)) (snd (new_array ?h1 ?rs)) = map (objects ?h1) ?rs"
    using new_array_props [OF al] by blast
  ultimately have v: "view (fst (new_array ?h1 ?rs)) (snd (new_array ?h1 ?rs)) = map f (view h a)"
    by (simp only: view_def map_map comp_def)
  show ?thesis
    unfolding eq using u n v new_array_props [OF al] by blast
qed

lemma sortResults_h_frame:
  "unchanged h (fst (sortResults_h lc h results sortBy)) \<and>
   snd (sortResults_h lc h results sortBy) = next_ref h"
proof -
  let ?h1 = "fst (array_copy h results)"
  note c = array_copy_props [of h results]
  have "unchanged h (array_sort ?h1 (next_ref h) cmp)" for cmp
    using array_sort_unchanged [of h ?h1 "next_ref h" cmp] c by simp
  then show ?thesis
    using c by (simp add: sortResults_h_def split_beta Let_def)
qed

lemma sortResults_h_value:
  assumes "allocated h results"
  shows "view (fst (sortResults_h lc h results sortBy)) (snd (sortResults_h lc h results sortBy))
         = sortResults lc (view h results) sortBy"
proof -
  let ?h1 = "fst (array_copy h results)"
  note c = array_copy_props [of h results]
  have "snd (array_copy h results) = next_ref h"
    and "view ?h1 (snd (array_copy h results)) = view h results"
    using c assms by blast+
  then have v1: "view ?h1 (next_ref h) = view h results" by simp
  have "view (array_sort ?h1 (next_ref h) cmp) (next_ref h) = js_sort cmp (view h results)" for cmp
    using array_sort_props [of ?h1 "next_ref h" cmp] v1 by simp
  then show ?thesis
    using c by (simp add: sortResults_h_def sortResults_def split_beta Let_def)
qed

lemma applyTextSearch_h_frame: "unchanged h (fst (applyTextSearch_h h data text))"
proof (cases "trim text = []")
  case True
  then show ?thesis by (simp add: applyTextSearch_h_def)
next
  case False
  let ?p = "\<lambda>member. list_all (\<lambda>term.
                       js_includes (searchable_text (entry member)) term
                       \<or> fuzzyMatch (searchable_text (entry member)) term) (search_terms text)"
  let ?f = "\<lambda>member. member \<lparr> relevanceScore :=
                     Some (calculateRelevanceScore (entry member) (search_terms text)) \<rparr>"
  let ?h1 = "fst (array_filter h data ?p)"
  let ?kept = "snd (array_filter h data ?p)"
  have eq: "applyTextSearch_h h data text = array_map_new ?h1 ?kept ?f"
    using False by (simp add: applyTextSearch_h_def split_beta Let_def)
  have "unchanged h ?h1" using array_filter_props [of h data ?p] by blast
  moreover have "unchanged ?h1 (fst (array_map_new ?h1 ?kept ?f))"
    using array_map_new_props [of ?h1 ?kept ?f] by blast
  ultimately show ?thesis unfolding eq by (rule unchanged_trans)
qed

lemma applyTextSearch_h_value:
  assumes "allocated h data"
  shows "view (fst (applyTextSearch_h h data text)) (snd (applyTextSearch_h h data text))
         = applyTextSearch (view h data) text"
proof (cases "trim text = []")
  case True
  then show ?thesis by (simp add: applyTextSearch_h_def applyTextSearch_def)
next
  case False
  let ?p = "\<lambda>member. list_all (\<lambda>term.
                       js_includes (searchable_text (entry member)) term
                       \<or> fuzzyMatch (searchable_text (entry member)) term) (search_terms text)"
  let ?f = "\<lambda>member. member \<lparr> relevanceScore :=
                     Some (calculateRelevanceScore (entry member) (search_terms text)) \<rparr>"
  let ?h1 = "fst (array_filter h data ?p)"
  let ?kept = "snd (array_filter h data ?p)"
  have eq: "applyTextSearch_h h data text = array_map_new ?h1 ?kept ?f"
    using False by (simp add: applyTextSearch_h_def split_beta Let_def)
  have "view ?h1 ?kept = filter ?p (view h data)"
    using array_filter_props [of h data ?p] assms by blast
  moreover have "view (fst (array_map_new ?h1 ?kept ?f)) (snd (array_map_new ?h1 ?kept ?f))
      = map ?f (view ?h1 ?kept)"
    using array_map_new_props [of ?h1 ?kept ?f] by blast
  ultimately show ?thesis
    unfolding eq using False by (simp add: applyTextSearch_def Let_def)
qed

lemma findSimilarMembers_h_frame:
  "unchanged h (fst (findSimilarMembers_h h processed target count))"
proof (cases "target = None \<or> processed = None")
  case True
  then show ?thesis
    by (auto simp: findSimilarMembers_h_def new_array_unchanged split: option.splits)
next
  case False
  then obtain t members where tm: "target = Some t" "processed = Some members" by auto
  let ?p = "\<lambda>member. username (entry member) \<noteq> username (entry (objects h t))"
  let ?h1 = "fst (array_filter h members ?p)"
  let ?others = "snd (array_filter h members ?p)"
  let ?f = "\<lambda>member. member \<lparr> similarityScore :=
                Some (calculateProfileSimilarity (entry (objects ?h1 t)) (entry member)) \<rparr>"
  let ?h2 = "fst (array_map_new ?h1 ?others ?f)"
  let ?scored = "snd (array_map_new ?h1 ?others ?f)"
  let ?h3 = "array_sort ?h2 ?scored by_similarity_desc"
  have eq: "findSimilarMembers_h h processed target count = array_slice ?h3 ?scored count"
    using tm by (simp add: findSimilarMembers_h_def split_beta Let_def)
  have u1: "unchanged h ?h1" using array_filter_props [of h members ?p] by blast
  have u2: "unchanged ?h1 ?h2" and n2: "next_ref ?h1 \<le> ?scored"
    using array_map_new_props [of ?h1 ?others ?f] by blast+
  have u12: "unchanged h ?h2" using u1 u2 by (rule unchanged_trans)
  have "next_ref h \<le> ?scored" using u1 n2 by (simp add: unchanged_def)
  then have u3: "unchanged h ?h3" using u12 by (simp add: array_sort_unchanged)
  have "unchanged ?h3 (fst (array_slice ?h3 ?scored count))"
    using array_slice_props [of ?h3 ?scored count] by blast
  then show ?thesis unfolding eq using u3 unchanged_trans by blast
qed

lemma findSimilarMembers_h_value:
  assumes al: "allocated h members" and t: "t < next_ref h"
    and ps: "view h members = map plain ps"
  shows "view (fst (findSimilarMembers_h h (Some members) (Some t) count))
              (snd (findSimilarMembers_h h (Some members) (Some t) count))
         = findSimilarMembers \<lparr> processedData = Some ps, activeFilters = af, currentResults = cr \<rparr>
              (Some (entry (objects h t))) count"
proof -
  let ?p = "\<lambda>member. username (entry member) \<noteq> username (entry (objects h t))"
  let ?h1 = "fst (array_filter h members ?p)"
  let ?others = "snd (array_filter h members ?p)"
  let ?f = "\<lambda>member. member \<lparr> similarityScore :=
                Some (calculateProfileSimilarity (entry (objects ?h1 t)) (entry member)) \<rparr>"
  let ?g = "\<lambda>member. member \<lparr> similarityScore :=
                Some (calculateProfileSimilarity (entry (objects h t)) (entry member)) \<rparr>"
  let ?h2 = "fst (array_map_new ?h1 ?others ?f)"
  let ?scored = "snd (array_map_new ?h1 ?others ?f)"
  let ?h3 = "array_sort ?h2 ?scored by_similarity_desc"
  have eq: "findSimilarMembers_h h (Some members) (Some t) count = array_slice ?h3 ?scored count"
    by (simp add: findSimilarMembers_h_def split_beta Let_def)
  have u1: "unchanged h ?h1" and v1: "view ?h1 ?others = filter ?p (view h members)"
    using array_filter_props [of h members ?p] al by blast+
  have ot: "objects ?h1 t = objects h t" using u1 t by (simp add: unchanged_def)
  have v2: "view ?h2 ?scored = map ?g (view ?h1 ?others)" and a2: "allocated ?h2 ?scored"
    using array_map_new_props [of ?h1 ?others ?f] unfolding ot by blast+
  have v3: "view ?h3 ?scored = js_sort by_similarity_desc (view ?h2 ?scored)"
    and a3: "allocated ?h3 ?scored"
    using array_sort_props [of ?h2 ?scored by_similarity_desc] a2 by blast+
  have v4: "view (fst (array_slice ?h3 ?scored count)) (snd (array_slice ?h3 ?scored count))
      = take count (view ?h3 ?scored)"
    using array_slice_props [of ?h3 ?scored count] a3 by blast
  have "filter ?p (map plain ps)
      = map plain (filter (\<lambda>member. username member \<noteq> username (entry (objects h t))) ps)"
    by (simp add: filter_map comp_def plain_def)
  then show ?thesis
    unfolding eq v4 v3 v2 v1 ps
    by (simp add: findSimilarMembers_def comp_def plain_def)
qed

text \<open>
  C8: the three operations mutate no object and no array that exists when they are
  called. \<open>sortResults\<close> returns a newly allocated array, which holds the sorted entries,
  while the array it was given holds what it held; text search and \<open>findSimilarMembers\<close>
  return arrays of newly allocated objects that carry the scores, while the array of the
  collection, its member objects and the target are as before. (\<open>search\<close> itself
  stores the merged filters and the last result list in the engine, as the specification
  describes.)
\<close>

theorem queries_do_not_mutate:
  "unchanged h (fst (sortResults_h lc h results sortBy)) \<and>
   snd (sortResults_h lc h results sortBy) = next_ref h \<and>
   (allocated h results \<longrightarrow>
      view (fst (sortResults_h lc h results sortBy)) results = view h results \<and>
      view (fst (sortResults_h lc h results sortBy)) (snd (sortResults_h lc h results sortBy))
        = sortResults lc (view h results) sortBy) \<and>
   unchanged h (fst (applyTextSearch_h h data query)) \<and>
   (allocated h data \<longrightarrow>
      view (fst (applyTextSearch_h h data query)) data = view h data \<and>
      view (fst (applyTextSearch_h h data query)) (snd (applyTextSearch_h h data query))
        = applyTextSearch (view h data) query) \<and>
   unchanged h (fst (findSimilarMembers_h h processed target count)) \<and>
   (allocated h members \<and> t < next_ref h \<and> view h members = map plain ps \<longrightarrow>
      view (fst (findSimilarMembers_h h (Some members) (Some t) count)) members = view h members \<and>
      objects (fst (findSimilarMembers_h h (Some members) (Some t) count)) t = objects h t \<and>
      view (fst (findSimilarMembers_h h (Some members) (Some t) count))
           (snd (findSimilarMembers_h h (Some members) (Some t) count))
        = findSimilarMembers
            \<lparr> processedData = Some ps, activeFilters = af, currentResults = cr \<rparr>
            (Some (entry (objects h t))) count)"
proof -
  have s: "view (fst (sortResults_h lc h results sortBy)) results = view h results"
    if "allocated h results"
    using unchanged_view [OF _ that] sortResults_h_frame by blast
  have a: "view (fst (applyTextSearch_h h data query)) data = view h data"
    if "allocated h data"
    using unchanged_view [OF _ that] applyTextSearch_h_frame by blast
  have f: "view (fst (findSimilarMembers_h h (Some members) (Some t) count)) members
             = view h members"
    if "allocated h members"
    using unchanged_view [OF _ that] findSimilarMembers_h_frame by blast
  have o: "objects (fst (findSimilarMembers_h h (Some members) (Some t) count)) t = objects h t"
    if "t < next_ref h"
    using findSimilarMembers_h_frame [of h "Some members" "Some t" count] that
    by (simp add: unchanged_def)
  have c1: "unchanged h (fst (sortResults_h lc h results sortBy))
      \<and> snd (sortResults_h lc h results sortBy) = next_ref h"
    by (rule sortResults_h_frame)
  have c2: "allocated h results \<longrightarrow>
      view (fst (sortResults_h lc h results sortBy)) results = view h results \<and>
      view (fst (sortResults_h lc h results sortBy)) (snd (sortResults_h lc h results sortBy))
        = sortResults lc (view h results) sortBy"
    using s sortResults_h_value by blast
  have c3: "unchanged h (fst (applyTextSearch_h h data query))"
    by (rule applyTextSearch_h_frame)
  have c4: "allocated h data \<longrightarrow>
      view (fst (applyTextSearch_h h data query)) data = view h data \<and>
      view (fst (applyTextSearch_h h data query)) (snd (applyTextSearch_h h data query))
        = applyTextSearch (view h data) query"
    using a applyTextSearch_h_value by blast
  have c5: "unchanged h (fst (findSimilarMembers_h h processed target count))"
    by (rule findSimilarMembers_h_frame)
  have c6: "allocated h members \<and> t < next_ref h \<and> view h members = map plain ps \<longrightarrow>
      view (fst (findSimilarMembers_h h (Some members) (Some t) count)) members = view h members \<and>
      objects (fst (findSimilarMembers_h h (Some members) (Some t) count)) t = objects h t \<and>
      view (fst (findSimilarMembers_h h (Some members) (Some t) count))
           (snd (findSimilarMembers_h h (Some members) (Some t) count))
        = findSimilarMembers
            \<lparr> processedData = Some ps, activeFilters = af, currentResults = cr \<rparr>
            (Some (entry (objects h t))) count"
    using f o findSimilarMembers_h_value by blast
  show ?thesis
    using c1 c2 c3 c4 c5 c6 by (intro conjI) blast+
qed

text \<open>
  C8 on the example store, whose array 3 holds Tom, Cat and Ann. Sorting it by name
  returns the new array 4 with Ann, Cat and Tom; the text search for "founder" returns
  scored copies of Tom and Cat; the members similar to Tom are scored copies of Cat and
  Ann. After each call the array 3 holds the same three members as before.
\<close>

theorem queries_do_not_mutate_witness:
  "allocated example_heap 3 \<and>
   usernames (view example_heap 3) = [''tom'', ''cat'', ''ann''] \<and>
   snd (sortResults_h code_unit_compare example_heap 3 ''name'') = 4 \<and>
   usernames (view (fst (sortResults_h code_unit_compare example_heap 3 ''name'')) 4)
     = [''ann'', ''cat'', ''tom''] \<and>
   view (fst (sortResults_h code_unit_compare example_heap 3 ''name'')) 3
     = view example_heap 3 \<and>
   map (\<lambda>r. (username (entry r), relevanceScore r))
       (view (fst (applyTextSearch_h example_heap 3 ''founder''))
             (snd (applyTextSearch_h example_heap 3 ''founder'')))
     = [(''tom'', Some 5), (''cat'', Some 5)] \<and>
   view (fst (applyTextSearch_h example_heap 3 ''founder'')) 3 = view example_heap 3 \<and>
   map (\<lambda>r. (username (entry r), similarityScore r))
       (view (fst (findSimilarMembers_h example_heap (Some 3) (Some 0) 10))
             (snd (findSimilarMembers_h example_heap (Some 3) (Some 0) 10)))
     = [(''cat'', Some (Num (1 / 3))), (''ann'', Some (Num 0))] \<and>
   view (fst (findSimilarMembers_h example_heap (Some 3) (Some 0) 10)) 3
     = view example_heap 3 \<and>
   objects (fst (findSimilarMembers_h example_heap (Some 3) (Some 0) 10)) 0
     = objects example_heap 0"
proof -
  let ?ps = "[processMember tom, processMember cat, processMember ann]"
  have a: "allocated example_heap 3"
    by (simp add: allocated_def example_heap_def)
  have n: "next_ref example_heap = 4"
    by (simp add: example_heap_def)
  have t: "0 < next_ref example_heap"
    by (simp add: example_heap_def)
  have p: "view example_heap 3 = map plain ?ps"
    by (simp add: view_def example_heap_def)
  have o: "objects example_heap 0 = plain (processMember tom)"
    by (simp add: example_heap_def)
  have u: "usernames (map plain ?ps) = [''tom'', ''cat'', ''ann'']"
    by code_simp
  have v: "usernames (sortResults code_unit_compare (map plain ?ps) ''name'')
             = [''ann'', ''cat'', ''tom'']"
    by code_simp
  have w: "map (\<lambda>r. (username (entry r), relevanceScore r))
               (applyTextSearch (map plain ?ps) ''founder'')
             = [(''tom'', Some 5), (''cat'', Some 5)]"
    by code_simp
  have x: "map (\<lambda>r. (username (entry r), similarityScore r))
               (findSimilarMembers
                  \<lparr> processedData = Some ?ps, activeFilters = initial_filters,
                    currentResults = [] \<rparr>
                  (Some (entry (plain (processMember tom)))) 10)
             = [(''cat'', Some (Num (1 / 3))), (''ann'', Some (Num 0))]"
    by code_simp
  note q = queries_do_not_mutate [where h = example_heap and lc = code_unit_compare
      and results = 3 and sortBy = "''name''" and data = 3 and query = "''founder''"
      and members = 3 and t = 0 and ps = "?ps" and count = 10
      and af = initial_filters and cr = "[]"]
  let ?h1 = "fst (sortResults_h code_unit_compare example_heap 3 ''name'')"
  let ?s1 = "snd (sortResults_h code_unit_compare example_heap 3 ''name'')"
  let ?h2 = "fst (applyTextSearch_h example_heap 3 ''founder'')"
  let ?s2 = "snd (applyTextSearch_h example_heap 3 ''founder'')"
  let ?h3 = "fst (findSimilarMembers_h example_heap (Some 3) (Some 0) 10)"
  let ?s3 = "snd (findSimilarMembers_h example_heap (Some 3) (Some 0) 10)"
  from q a
  have s1: "?s1 = next_ref example_heap"
    and k1: "view ?h1 3 = view example_heap 3"
    and r1: "view ?h1 ?s1 = sortResults code_unit_compare (view example_heap 3) ''name''"
    and k2: "view ?h2 3 = view example_heap 3"
    and r2: "view ?h2 ?s2 = applyTextSearch (view example_heap 3) ''founder''"
    by blast+
  from q a t p
  have k3: "view ?h3 3 = view example_heap 3"
    and o3: "objects ?h3 0 = objects example_heap 0"
    and r3: "view ?h3 ?s3
       = findSimilarMembers
           \<lparr> processedData = Some ?ps, activeFilters = initial_filters,
             currentResults = [] \<rparr>
           (Some (entry (objects example_heap 0))) 10"
    by blast+
  have s4: "?s1 = 4" using s1 n by simp
  have c1: "usernames (view ?h1 4) = [''ann'', ''cat'', ''tom'']"
    using r1 v unfolding s4 p by simp
  have c2: "map (\<lambda>r. (username (entry r), relevanceScore r)) (view ?h2 ?s2)
      = [(''tom'', Some 5), (''cat'', Some 5)]"
    unfolding r2 p by (rule w)
  have c3: "map (\<lambda>r. (username (entry r), similarityScore r)) (view ?h3 ?s3)
      = [(''cat'', Some (Num (1 / 3))), (''ann'', Some (Num 0))]"
    unfolding r3 o by (rule x)
  have c0: "usernames (view example_heap 3) = [''tom'', ''cat'', ''ann'']"
    unfolding p by (rule u)
  show ?thesis
    using a c0 s4 c1 k1 c2 k2 c3 k3 o3 by blast
qed

end
